theory Spec2Isabelle
  imports Complex_Main "HOL-Library.AList" "HOL-Library.Sublist"
begin

section \<open>Data model (video-info.dto.ts)\<close>

text \<open>
  \<^verbatim>\<open>FormatDto\<close> and \<^verbatim>\<open>VideoInfoDto\<close> as records. JavaScript numbers that hold sizes,
  heights and counts are modelled as unbounded integers; the optional codec tag
  (\<^verbatim>\<open>vcodec?: string | null\<close>) is an option. The optional display dimensions
  \<^verbatim>\<open>width\<close> and \<^verbatim>\<open>height\<close> of \<^verbatim>\<open>VideoInfoDto\<close> are read by none of the functions
  modelled here and are left out; its field \<^verbatim>\<open>id\<close> is \<open>video_id\<close>.
\<close>

record FormatDto =
  formatId :: string
  ext :: string
  resolution :: string
  filesize :: int
  quality :: int
  hasAudio :: bool
  vcodec :: "string option"

record VideoInfoDto =
  video_id :: string
  url :: string
  title :: string
  uploader :: string
  duration :: int
  viewCount :: int
  likeCount :: int
  uploadDate :: string
  thumbnail :: string
  formats :: "FormatDto list"

text \<open>
  One entry of the \<^verbatim>\<open>formats\<close> array of the fetcher's JSON dump (typed \<^verbatim>\<open>any\<close> in
  the source). A field that is absent or \<^verbatim>\<open>null\<close> is \<open>None\<close>.
\<close>

record raw_format =
  format_id :: string
  raw_vcodec :: "string option"
  raw_acodec :: "string option"
  raw_height :: "int option"
  raw_filesize :: "int option"
  raw_filesize_approx :: "int option"

section \<open>JavaScript library functions used by the source\<close>

text \<open>Truthiness of a string-or-undefined and of a number-or-undefined value.\<close>

definition truthy_str :: "string option \<Rightarrow> bool" where
  "truthy_str s = (case s of None \<Rightarrow> False | Some t \<Rightarrow> t \<noteq> [])"

definition num_or :: "int option \<Rightarrow> int \<Rightarrow> int" where
  \<comment> \<open>\<^verbatim>\<open>x || d\<close> on numbers: \<^verbatim>\<open>x\<close> when it is defined and non-zero, else \<^verbatim>\<open>d\<close>\<close>
  "num_or x d = (case x of None \<Rightarrow> d | Some n \<Rightarrow> if n = 0 then d else n)"

text \<open>\<^verbatim>\<open>String.prototype.includes\<close>: the argument occurs as a contiguous substring.\<close>

fun str_includes :: "string \<Rightarrow> string \<Rightarrow> bool" where
  "str_includes [] sub = (sub = [])"
| "str_includes (c # cs) sub = (prefix sub (c # cs) \<or> str_includes cs sub)"

text \<open>
  \<^verbatim>\<open>toLowerCase\<close> on the ASCII letters. No character outside ASCII lower-cases to one
  of the characters of \<^verbatim>\<open>avc1\<close> or \<^verbatim>\<open>h264\<close>, the only strings searched for afterwards.
\<close>

definition lower_char :: "char \<Rightarrow> char" where
  "lower_char c =
     (let n = of_char c :: nat in if 65 \<le> n \<and> n \<le> 90 then char_of (n + 32) else c)"

definition toLowerCase :: "string \<Rightarrow> string" where
  "toLowerCase s = map lower_char s"

text \<open>Decimal rendering of an integer, as a template literal prints it.\<close>

definition digit_char :: "nat \<Rightarrow> char" where
  "digit_char d = char_of (48 + d)"

function show_nat :: "nat \<Rightarrow> string" where
  "show_nat n = (if n < 10 then [digit_char n] else show_nat (n div 10) @ [digit_char (n mod 10)])"
  by pat_completeness auto
termination
  by (relation "measure (\<lambda>n. n)") auto

definition show_int :: "int \<Rightarrow> string" where
  "show_int i = (if i < 0 then CHR ''-'' # show_nat (nat (- i)) else show_nat (nat i))"

text \<open>
  \<^verbatim>\<open>parseInt(s, 10)\<close>: skip leading white space, read an optional sign, then the longest
  run of decimal digits; \<^verbatim>\<open>NaN\<close> (here \<open>None\<close>) when there is no digit.
\<close>

definition is_digit :: "char \<Rightarrow> bool" where
  "is_digit c = (let n = of_char c :: nat in 48 \<le> n \<and> n \<le> 57)"

definition is_space :: "char \<Rightarrow> bool" where
  "is_space c = (of_char c \<in> {9, 10, 11, 12, 13, 32 :: nat})"

definition digit_val :: "char \<Rightarrow> int" where
  "digit_val c = int (of_char c) - 48"

definition parse_digits :: "string \<Rightarrow> int option" where
  "parse_digits s =
     (case takeWhile is_digit s of
        [] \<Rightarrow> None
      | d # ds \<Rightarrow> Some (foldl (\<lambda>acc c. 10 * acc + digit_val c) 0 (d # ds)))"

definition parseInt :: "string \<Rightarrow> int option" where
  "parseInt s =
     (case dropWhile is_space s of
        [] \<Rightarrow> None
      | c # cs \<Rightarrow>
          if c = CHR ''-'' then map_option uminus (parse_digits cs)
          else if c = CHR ''+'' then parse_digits cs
          else parse_digits (c # cs))"

section \<open>Format resolver (YtdlpService.getBestFormats)\<close>

definition hasVideo :: "raw_format \<Rightarrow> bool" where
  "hasVideo f = (truthy_str (raw_vcodec f) \<and> raw_vcodec f \<noteq> Some ''none'')"

definition hasAudioRaw :: "raw_format \<Rightarrow> bool" where
  "hasAudioRaw f = (truthy_str (raw_acodec f) \<and> raw_acodec f \<noteq> Some ''none'')"

definition size_of :: "raw_format \<Rightarrow> int" where
  "size_of f = num_or (raw_filesize f) (num_or (raw_filesize_approx f) 0)"

definition height :: "raw_format \<Rightarrow> int" where
  "height f = num_or (raw_height f) 0"

definition isH264 :: "raw_format \<Rightarrow> bool" where
  "isH264 f =
     (case raw_vcodec f of
        None \<Rightarrow> False
      | Some v \<Rightarrow> str_includes (toLowerCase v) ''avc1'' \<or> str_includes (toLowerCase v) ''h264'')"

definition existing_has_avc :: "FormatDto \<Rightarrow> bool" where
  \<comment> \<open>\<^verbatim>\<open>existing.vcodec?.includes('avc')\<close>, as a truth value\<close>
  "existing_has_avc e = (case vcodec e of None \<Rightarrow> False | Some v \<Rightarrow> str_includes v ''avc'')"

definition audioDto :: "raw_format \<Rightarrow> FormatDto" where
  "audioDto f =
     \<lparr>formatId = format_id f, ext = ''m4a'', resolution = ''audio'', filesize = size_of f,
      quality = 0, hasAudio = True, vcodec = None\<rparr>"

definition videoDto :: "raw_format \<Rightarrow> FormatDto" where
  "videoDto f =
     \<lparr>formatId = format_id f, ext = ''mp4'', resolution = show_int (height f) @ ''p'',
      filesize = size_of f, quality = height f, hasAudio = hasAudioRaw f,
      vcodec = raw_vcodec f\<rparr>"

text \<open>
  The test that decides whether the record \<open>f\<close> is stored at its height, given the
  entry \<open>existing\<close> the map holds there (\<open>None\<close> when there is none).
\<close>

definition takes :: "raw_format \<Rightarrow> FormatDto option \<Rightarrow> bool" where
  "takes f existing =
     (size_of f > 0 \<and>
      (case existing of
         None \<Rightarrow> True
       | Some e \<Rightarrow> size_of f > filesize e \<or> (isH264 f \<and> \<not> existing_has_avc e)))"

text \<open>
  The body of the \<^verbatim>\<open>forEach\<close> callback. The state is the pair of the \<^verbatim>\<open>Map\<close>
  \<^verbatim>\<open>videoFormats\<close>, kept as an association list in insertion order (a \<^verbatim>\<open>set\<close> on a
  present key keeps the key's position), and the array \<^verbatim>\<open>audioFormats\<close>.
\<close>

definition forEach_body ::
  "(int \<times> FormatDto) list \<times> FormatDto list \<Rightarrow> raw_format \<Rightarrow>
   (int \<times> FormatDto) list \<times> FormatDto list" where
  "forEach_body st f =
     (let (videoFormats, audioFormats) = st in
      if \<not> hasVideo f \<and> hasAudioRaw f then (videoFormats, audioFormats @ [audioDto f])
      else if hasVideo f then
        (if height f < 144 then (videoFormats, audioFormats)
         else if takes f (map_of videoFormats (height f))
              then (AList.update (height f) (videoDto f) videoFormats, audioFormats)
              else (videoFormats, audioFormats))
      else (videoFormats, audioFormats))"

definition bestAudio :: "FormatDto list \<Rightarrow> FormatDto option" where
  \<comment> \<open>\<^verbatim>\<open>audioFormats.sort((a, b) => b.filesize - a.filesize)[0]\<close>; the sort is stable\<close>
  "bestAudio audioFormats =
     (case sort_key (\<lambda>a. - filesize a) audioFormats of [] \<Rightarrow> None | a # _ \<Rightarrow> Some a)"

definition getBestFormats :: "raw_format list \<Rightarrow> FormatDto list" where
  "getBestFormats fs =
     (let (videoFormats, audioFormats) = foldl forEach_body ([], []) fs;
          sortedVideos = sort_key (\<lambda>a. - quality a) (map snd videoFormats)
      in case bestAudio audioFormats of
           None \<Rightarrow> sortedVideos
         | Some a \<Rightarrow> sortedVideos @ [a])"

text \<open>
  Views of \<^const>\<open>getBestFormats\<close> used to state its properties: the two halves of the
  loop's final state, the sorted ladder and the audio tail; the records that go to the
  audio pool; and one application of the replacement test to the incumbent of a height.
\<close>

definition challenge :: "FormatDto option \<Rightarrow> raw_format \<Rightarrow> FormatDto option" where
  "challenge incumbent f = (if takes f incumbent then Some (videoDto f) else incumbent)"

definition is_audio_only :: "raw_format \<Rightarrow> bool" where
  "is_audio_only f = (\<not> hasVideo f \<and> hasAudioRaw f)"

definition videoFormats :: "raw_format list \<Rightarrow> (int \<times> FormatDto) list" where
  "videoFormats fs = fst (foldl forEach_body ([], []) fs)"

definition audioFormats :: "raw_format list \<Rightarrow> FormatDto list" where
  "audioFormats fs = snd (foldl forEach_body ([], []) fs)"

definition sortedVideos :: "raw_format list \<Rightarrow> FormatDto list" where
  "sortedVideos fs = sort_key (\<lambda>a. - quality a) (map snd (videoFormats fs))"

definition audioTail :: "raw_format list \<Rightarrow> FormatDto list" where
  "audioTail fs = (case bestAudio (audioFormats fs) of None \<Rightarrow> [] | Some a \<Rightarrow> [a])"






text \<open>Concrete fetcher records used in the worked examples.\<close>

definition video_record :: "string \<Rightarrow> string \<Rightarrow> int \<Rightarrow> int \<Rightarrow> raw_format" where
  "video_record fid codec h sz =
     \<lparr>format_id = fid, raw_vcodec = Some codec, raw_acodec = Some ''none'',
      raw_height = Some h, raw_filesize = Some sz, raw_filesize_approx = None\<rparr>"

definition audio_record :: "string \<Rightarrow> int \<Rightarrow> raw_format" where
  "audio_record fid sz =
     \<lparr>format_id = fid, raw_vcodec = Some ''none'', raw_acodec = Some ''mp4a.40.2'',
      raw_height = None, raw_filesize = Some sz, raw_filesize_approx = None\<rparr>"

definition vp9_720_2000 :: raw_format where
  "vp9_720_2000 = video_record ''247'' ''vp09.00.31.08'' 720 2000"


definition avc_720_1000 :: raw_format where
  "avc_720_1000 = video_record ''136'' ''avc1.64001f'' 720 1000"

definition vp9_360_500 :: raw_format where
  "vp9_360_500 = video_record ''243'' ''vp09.00.21.08'' 360 500"

definition vp9_100_900 :: raw_format where
  "vp9_100_900 = video_record ''597'' ''vp09.00.10.08'' 100 900"

definition audio_5 :: raw_format where
  "audio_5 = audio_record ''139'' 5"

definition audio_7 :: raw_format where
  "audio_7 = audio_record ''140'' 7"

definition sample_formats :: "raw_format list" where
  "sample_formats = [vp9_360_500, vp9_720_2000, audio_5, avc_720_1000, vp9_100_900, audio_7]"

section \<open>JavaScript numbers\<close>










section \<open>Progress reporting (the stdout handler of YtdlpService.downloadVideo)\<close>









section \<open>Choice list (the filter of DownloaderService.handleUrl)\<close>

definition MIN_RESOLUTION :: int where
  "MIN_RESOLUTION = 360"

definition MAX_RESOLUTION :: int where
  "MAX_RESOLUTION = 1080"

definition is_audio :: "FormatDto \<Rightarrow> bool" where
  "is_audio f = (resolution f = ''audio'')"

definition shown_video :: "FormatDto \<Rightarrow> bool" where
  \<comment> \<open>the predicate passed to \<^verbatim>\<open>filter\<close>\<close>
  "shown_video f =
     (if resolution f = ''audio'' then False
      else case parseInt (resolution f) of
             None \<Rightarrow> False
           | Some h \<Rightarrow> h \<ge> MIN_RESOLUTION \<and> h \<le> MAX_RESOLUTION)"

definition sort_height :: "FormatDto \<Rightarrow> int" where
  \<comment> \<open>\<^verbatim>\<open>parseInt(a.resolution, 10) || 0\<close>\<close>
  "sort_height f = (case parseInt (resolution f) of None \<Rightarrow> 0 | Some h \<Rightarrow> h)"

definition visibleFormats :: "FormatDto list \<Rightarrow> FormatDto list" where
  "visibleFormats allFormats =
     (let audioFormat = find is_audio allFormats;
          videoFormats = sort_key (\<lambda>f. - sort_height f) (filter shown_video allFormats)
      in case audioFormat of
           None \<Rightarrow> videoFormats
         | Some a \<Rightarrow> videoFormats @ [a])"

section \<open>External calls, faults and the state they act on\<close>

text \<open>
  An exception is a value. Prisma errors carry their code (\<^verbatim>\<open>P2002\<close> unique constraint,
  \<^verbatim>\<open>P2025\<close> record not found); every other error carries its message.
\<close>

datatype error = PrismaError string | ExternalError string

text \<open>The bot's context: \<^verbatim>\<open>ctx.chat\<close> and \<^verbatim>\<open>ctx.from\<close> may be undefined.\<close>

record ctx =
  chat :: "int option"
  from_user :: "int option"

text \<open>
  The texts sent to the user. The literals of the source are in Russian with emoji;
  each constructor stands for one literal or template, its holes as arguments.
\<close>

datatype message =
    OnlyInChats
  | Analyzing
  | TooLowOrNone
  | AnalyzeFailed
  | LinkExpired
  | FromCache
  | AlreadyDownloading
  | AddedToQueue
  | StartingDownload
  | UploadingToTelegram
  | ErrorText error
  | DeliveryCaption string string string
  | ChoiceCaption VideoInfoDto

datatype log_line =
    SessionSaved string
  | SessionSaveError error
  | SessionNotFound string
  | SessionExpired string
  | SessionGetError error
  | SessionDeleted string
  | SessionDeleteError error
  | AnalyzeStart string
  | VideoInfoError error
  | AnalyzeError error
  | ThumbnailFailed
  | CacheHit string
  | FileIdStale
  | CacheWriteAttempt string
  | CacheSaved
  | CacheSaveError error
  | DownloadError error

text \<open>One row of the inline keyboard: the star, the format shown and the callback data.\<close>

record button =
  starred :: bool
  shown :: FormatDto
  callback_data :: string

text \<open>The arguments captured by the closure handed to the queue.\<close>

record job =
  job_ctx :: ctx
  job_video :: VideoInfoDto
  job_formatId :: string
  job_resolution :: string
  job_userId :: int

text \<open>The argument of \<^verbatim>\<open>cacheService.set\<close>.\<close>

record cache_write =
  cw_url :: string
  cw_formatId :: string
  cw_resolution :: string
  cw_fileId :: string
  cw_archiveMessageId :: int
  cw_fileSize :: int
  cw_fileType :: string
  cw_userId :: int
  cw_title :: string
  cw_uploader :: "string option"
  cw_duration :: "int option"

text \<open>What \<^verbatim>\<open>cacheService.get\<close> returns on a hit: the fields the caller reads.\<close>

record cache_entry =
  entry_id :: string
  entry_fileId :: string

text \<open>What \<^verbatim>\<open>uploaderService.cacheToChannel\<close> returns.\<close>

record upload_result =
  up_fileId :: string
  up_messageId :: int

text \<open>
  Every call that leaves the three services under study: the Telegram API, the logger,
  the fetcher subprocess, Prisma, the cache, user and advertisement services, the
  queue, the uploader and the file system.
\<close>

datatype call =
    Reply message
  | AnswerCallbackQuery message
  | ReplyWithAudio string message
  | ReplyWithVideo string message
  | ReplyWithPhoto string message "button list"
  | EditMessageText message "button list"
  | DeleteMessage
  | Logger log_line
  | YtdlpDump string
  | YtdlpDownload string string string bool
  | PrismaCreate string
  | PrismaFindUnique string
  | PrismaDelete string
  | CacheGet string string string
  | CacheSet cache_write
  | RecordCacheHit string int
  | IncrementDownloads int
  | AdIncrementUserDownloads int
  | ShouldShowAd int
  | ShowAd
  | QueueAdd job
  | CacheToChannel string bool
  | FsStat string
  | FsUnlink string

text \<open>The metadata dump of the fetcher (\<^verbatim>\<open>--dump-single-json\<close>), after \<^verbatim>\<open>JSON.parse\<close>.\<close>

record raw_metadata =
  meta_id :: string
  meta_webpage_url :: "string option"
  meta_title :: string
  meta_uploader :: "string option"
  meta_channel :: "string option"
  meta_duration :: "int option"
  meta_view_count :: "int option"
  meta_like_count :: "int option"
  meta_upload_date :: "string option"
  meta_thumbnail :: "string option"
  meta_formats :: "raw_format list option"

text \<open>
  What the surroundings decide in one run: which calls throw (\<open>faults\<close>, \<open>None\<close> for a
  call that succeeds) and what the value-returning ones return. \<open>sanitizeTitle\<close> is
  \<^verbatim>\<open>sanitizeFilename\<close> of \<^verbatim>\<open>common/utils/file.utils\<close>, \<open>entry_id_of\<close> the id the cache
  gives the entry of a fingerprint; both are parameters. \<open>seven_days_later\<close> is
  \<^verbatim>\<open>d.setDate(d.getDate() + 7)\<close> on instants in milliseconds: the same local time of day
  seven calendar days on, which the time zone of the process decides (a change of
  daylight saving time in between moves it by an hour).
\<close>

record env =
  faults :: "call \<Rightarrow> error option"
  metadata :: "string \<Rightarrow> raw_metadata"
  randomHex :: string
  downloadsDir :: string
  yourUsername :: string
  sanitizeTitle :: "string \<Rightarrow> string"
  archive_ref :: "string \<Rightarrow> upload_result"
  stat_size :: "string \<Rightarrow> int"
  ad_due :: "int \<Rightarrow> bool"
  entry_id_of :: "string \<times> string \<times> string \<Rightarrow> string"
  seven_days_later :: "int \<Rightarrow> int"

text \<open>A row of the \<^verbatim>\<open>videoSession\<close> table, as \<^verbatim>\<open>create\<close> writes it.\<close>

record session_row =
  row_originalUrl :: string
  row_videoId :: string
  row_title :: string
  row_uploader :: string
  row_duration :: int
  row_viewCount :: "int option"
  row_likeCount :: "int option"
  row_uploadDate :: string
  row_thumbnail :: string
  row_formats :: "FormatDto list"
  expiresAt :: int

text \<open>
  The state: the clock (milliseconds), the \<^verbatim>\<open>videoSession\<close> table, the cache table,
  the files of the download directory, the two in-process maps of
  \<^verbatim>\<open>DownloaderService\<close>, the jobs handed to the queue and not yet settled, and the calls
  made so far.
\<close>

record world =
  now :: int
  sessions :: "string \<rightharpoonup> session_row"
  cache :: "string \<times> string \<times> string \<rightharpoonup> cache_entry"
  files :: "string set"
  videoDataCache :: "string \<rightharpoonup> VideoInfoDto"
  activeDownloads :: "string set"
  submitted :: "job list"
  trace :: "call list"

type_synonym 'a io = "world \<Rightarrow> (error + 'a) \<times> world"

definition ret :: "'a \<Rightarrow> 'a io" where
  "ret x w = (Inr x, w)"

definition throw :: "error \<Rightarrow> 'a io" where
  "throw e w = (Inl e, w)"

definition await :: "'a io \<Rightarrow> ('a \<Rightarrow> 'b io) \<Rightarrow> 'b io" where
  \<comment> \<open>run the first, hand its value to the rest; an exception skips the rest\<close>
  "await m k w = (case m w of (Inl e, w') \<Rightarrow> (Inl e, w') | (Inr x, w') \<Rightarrow> k x w')"

definition andThen :: "unit io \<Rightarrow> 'a io \<Rightarrow> 'a io" where
  "andThen m k = await m (\<lambda>_. k)"

definition try_catch :: "'a io \<Rightarrow> (error \<Rightarrow> 'a io) \<Rightarrow> 'a io" where
  "try_catch m handler w = (case m w of (Inl e, w') \<Rightarrow> handler e w' | (Inr x, w') \<Rightarrow> (Inr x, w'))"

definition attempt :: "'a io \<Rightarrow> ('a \<Rightarrow> 'b io) \<Rightarrow> (error \<Rightarrow> 'b io) \<Rightarrow> 'b io" where
  \<comment> \<open>a \<^verbatim>\<open>try\<close> whose first statement decides which of two continuations runs\<close>
  "attempt m ok failed w = (case m w of (Inl e, w') \<Rightarrow> failed e w' | (Inr x, w') \<Rightarrow> ok x w')"

definition swallow :: "unit io \<Rightarrow> unit io" where
  \<comment> \<open>\<^verbatim>\<open>.catch(() => {})\<close>\<close>
  "swallow m = try_catch m (\<lambda>_. ret ())"

definition perform :: "env \<Rightarrow> call \<Rightarrow> unit io" where
  \<comment> \<open>make the call: it is recorded, then throws or returns as the surroundings decide\<close>
  "perform en c w =
     (case faults en c of
        Some e \<Rightarrow> (Inl e, w\<lparr>trace := trace w @ [c]\<rparr>)
      | None \<Rightarrow> (Inr (), w\<lparr>trace := trace w @ [c]\<rparr>))"

definition logger :: "log_line \<Rightarrow> unit io" where
  "logger l w = (Inr (), w\<lparr>trace := trace w @ [Logger l]\<rparr>)"

definition str_or :: "string option \<Rightarrow> string \<Rightarrow> string" where
  \<comment> \<open>\<^verbatim>\<open>x || d\<close> on strings\<close>
  "str_or x d = (case x of None \<Rightarrow> d | Some s \<Rightarrow> if s = [] then d else s)"

section \<open>VideoSessionService\<close>

text \<open>
  Modelled from the spec: the Prisma schema is not part of the sources. The spec gives
  \<^verbatim>\<open>sessions(id PK, metadata JSON, expiresAt)\<close>, and \<^verbatim>\<open>findUnique({ where: { id } })\<close>
  requires \<^verbatim>\<open>id\<close> to be unique; so \<^verbatim>\<open>create\<close> on a present id is rejected with
  \<^verbatim>\<open>P2002\<close>, and \<^verbatim>\<open>delete\<close> of an absent id with \<^verbatim>\<open>P2025\<close>.
\<close>

definition prisma_create :: "env \<Rightarrow> string \<Rightarrow> session_row \<Rightarrow> unit io" where
  "prisma_create en i row =
     andThen (perform en (PrismaCreate i))
       (\<lambda>w. if sessions w i \<noteq> None then (Inl (PrismaError ''P2002''), w)
            else (Inr (), w\<lparr>sessions := (sessions w)(i \<mapsto> row)\<rparr>))"

definition prisma_findUnique :: "env \<Rightarrow> string \<Rightarrow> session_row option io" where
  "prisma_findUnique en i =
     andThen (perform en (PrismaFindUnique i)) (\<lambda>w. (Inr (sessions w i), w))"

definition prisma_delete :: "env \<Rightarrow> string \<Rightarrow> unit io" where
  "prisma_delete en i =
     andThen (perform en (PrismaDelete i))
       (\<lambda>w. if sessions w i = None then (Inl (PrismaError ''P2025''), w)
            else (Inr (), w\<lparr>sessions := (sessions w)(i := None)\<rparr>))"

definition bigint_or_null :: "int \<Rightarrow> int option" where
  \<comment> \<open>\<^verbatim>\<open>n ? BigInt(n) : null\<close>\<close>
  "bigint_or_null n = (if n = 0 then None else Some n)"

definition row_of :: "VideoInfoDto \<Rightarrow> int \<Rightarrow> session_row" where
  "row_of videoInfo expires =
     \<lparr>row_originalUrl = url videoInfo, row_videoId = video_id videoInfo,
      row_title = title videoInfo, row_uploader = uploader videoInfo,
      row_duration = duration videoInfo,
      row_viewCount = bigint_or_null (viewCount videoInfo),
      row_likeCount = bigint_or_null (likeCount videoInfo),
      row_uploadDate = uploadDate videoInfo, row_thumbnail = thumbnail videoInfo,
      row_formats = formats videoInfo, expiresAt = expires\<rparr>"

definition save :: "env \<Rightarrow> string \<Rightarrow> VideoInfoDto \<Rightarrow> unit io" where
  "save en videoId videoInfo w =
     (let expires = seven_days_later en (now w) in
      try_catch
        (andThen (prisma_create en videoId (row_of videoInfo expires))
                 (logger (SessionSaved videoId)))
        (\<lambda>e. andThen (logger (SessionSaveError e)) (throw e)) w)"

definition delete :: "env \<Rightarrow> string \<Rightarrow> unit io" where
  "delete en videoId =
     try_catch
       (andThen (prisma_delete en videoId) (logger (SessionDeleted videoId)))
       (\<lambda>e. if e \<noteq> PrismaError ''P2025'' then logger (SessionDeleteError e) else ret ())"

definition info_of :: "session_row \<Rightarrow> VideoInfoDto" where
  "info_of session =
     \<lparr>video_id = row_videoId session, url = row_originalUrl session,
      title = row_title session, uploader = row_uploader session,
      duration = row_duration session,
      viewCount = (case row_viewCount session of None \<Rightarrow> 0 | Some n \<Rightarrow> n),
      likeCount = (case row_likeCount session of None \<Rightarrow> 0 | Some n \<Rightarrow> n),
      uploadDate = row_uploadDate session, thumbnail = row_thumbnail session,
      formats = row_formats session\<rparr>"

definition get :: "env \<Rightarrow> string \<Rightarrow> VideoInfoDto option io" where
  "get en videoId =
     try_catch
       (await (prisma_findUnique en videoId) (\<lambda>found.
          case found of
            None \<Rightarrow> andThen (logger (SessionNotFound videoId)) (ret None)
          | Some session \<Rightarrow>
              (\<lambda>w. if now w > expiresAt session
                    then andThen (logger (SessionExpired videoId))
                           (andThen (delete en videoId) (ret None)) w
                    else ret (Some (info_of session)) w)))
       (\<lambda>e. andThen (logger (SessionGetError e)) (ret None))"

section \<open>YtdlpService.getVideoInfo\<close>

definition videoInfo_of :: "string \<Rightarrow> raw_metadata \<Rightarrow> VideoInfoDto" where
  "videoInfo_of u data =
     \<lparr>video_id = meta_id data, url = str_or (meta_webpage_url data) u,
      title = take 100 (meta_title data),
      uploader = str_or (meta_uploader data) (str_or (meta_channel data) ''Unknown''),
      duration = num_or (meta_duration data) 0,
      viewCount = num_or (meta_view_count data) 0,
      likeCount = num_or (meta_like_count data) 0,
      uploadDate = str_or (meta_upload_date data) [],
      thumbnail = str_or (meta_thumbnail data) [],
      formats = getBestFormats (case meta_formats data of None \<Rightarrow> [] | Some fs \<Rightarrow> fs)\<rparr>"

definition getVideoInfo :: "env \<Rightarrow> string \<Rightarrow> VideoInfoDto io" where
  "getVideoInfo en u =
     andThen (logger (AnalyzeStart u))
       (try_catch
          (andThen (perform en (YtdlpDump u)) (ret (videoInfo_of u (metadata en u))))
          (\<lambda>e. andThen (logger (VideoInfoError e)) (throw (ExternalError ''unavailable''))))"

section \<open>DownloaderService.handleUrl\<close>

definition keyboard_of :: "string \<Rightarrow> FormatDto list \<Rightarrow> button list" where
  "keyboard_of sessionId visible =
     map (\<lambda>(idx, f).
            \<lparr>starred = (idx = (0::nat) \<and> resolution f \<noteq> ''audio''), shown = f,
             callback_data = ''dl|'' @ sessionId @ ''|'' @ formatId f @ ''|'' @ resolution f\<rparr>)
         (enumerate 0 visible)"

definition cache_video :: "string \<Rightarrow> VideoInfoDto \<Rightarrow> unit io" where
  \<comment> \<open>\<^verbatim>\<open>this.videoDataCache.set(id, info)\<close>\<close>
  "cache_video i info w = (Inr (), w\<lparr>videoDataCache := (videoDataCache w)(i \<mapsto> info)\<rparr>)"

definition send_choices :: "env \<Rightarrow> VideoInfoDto \<Rightarrow> button list \<Rightarrow> unit io" where
  "send_choices en videoInfo keyboard =
     (let caption = ChoiceCaption videoInfo in
      if thumbnail videoInfo \<noteq> [] then
        try_catch
          (andThen (swallow (perform en DeleteMessage))
                   (perform en (ReplyWithPhoto (thumbnail videoInfo) caption keyboard)))
          (\<lambda>photoError. andThen (logger ThumbnailFailed)
                           (perform en (EditMessageText caption keyboard)))
      else perform en (EditMessageText caption keyboard))"

definition analyse :: "env \<Rightarrow> string \<Rightarrow> unit io" where
  \<comment> \<open>the \<^verbatim>\<open>try\<close> block of \<^verbatim>\<open>handleUrl\<close> after the first reply\<close>
  "analyse en u =
     await (getVideoInfo en u) (\<lambda>videoInfo.
       let sessionId = randomHex en in
       andThen (cache_video sessionId videoInfo)
      (andThen (save en sessionId videoInfo)
        (let visible = visibleFormats (formats videoInfo) in
         if visible = [] then perform en (Reply TooLowOrNone)
         else send_choices en videoInfo (keyboard_of sessionId visible))))"

definition handleUrl :: "env \<Rightarrow> ctx \<Rightarrow> string \<Rightarrow> unit io" where
  "handleUrl en c u =
     (case chat c of
        None \<Rightarrow> perform en (Reply OnlyInChats)
      | Some chatId \<Rightarrow>
          attempt (perform en (Reply Analyzing))
            (\<lambda>progressMsg.
               try_catch (analyse en u)
                 (\<lambda>e. andThen (logger (AnalyzeError e))
                         (swallow (perform en (EditMessageText AnalyzeFailed [])))))
            (\<lambda>e. andThen (logger (AnalyzeError e)) (perform en (Reply AnalyzeFailed))))"

section \<open>DownloaderService.handleQualitySelection\<close>

text \<open>
  Modelled from the spec: \<^verbatim>\<open>cache.service\<close> is not part of the sources. Per the spec,
  \<^verbatim>\<open>get\<close> returns the entry of a fingerprint if present, else a miss, and \<^verbatim>\<open>set\<close>
  persists an entry, overwriting the one of the same fingerprint.
\<close>

definition cache_get :: "env \<Rightarrow> string \<Rightarrow> string \<Rightarrow> string \<Rightarrow> cache_entry option io" where
  "cache_get en resourceId fmt label =
     andThen (perform en (CacheGet resourceId fmt label))
       (\<lambda>w. (Inr (cache w (resourceId, fmt, label)), w))"

definition cache_set :: "env \<Rightarrow> cache_write \<Rightarrow> unit io" where
  "cache_set en d =
     andThen (perform en (CacheSet d))
       (\<lambda>w. let k = (cw_url d, cw_formatId d, cw_resolution d) in
            (Inr (), w\<lparr>cache := (cache w)(k \<mapsto>
               \<lparr>entry_id = entry_id_of en k, entry_fileId = cw_fileId d\<rparr>)\<rparr>))"

definition delivery_call :: "bool \<Rightarrow> string \<Rightarrow> message \<Rightarrow> call" where
  "delivery_call isAudio fileRef caption =
     (if isAudio then ReplyWithAudio fileRef caption else ReplyWithVideo fileRef caption)"

definition deliver :: "env \<Rightarrow> bool \<Rightarrow> string \<Rightarrow> message \<Rightarrow> unit io" where
  "deliver en isAudio fileRef caption = perform en (delivery_call isAudio fileRef caption)"

definition delivery_caption :: "env \<Rightarrow> VideoInfoDto \<Rightarrow> string \<Rightarrow> message" where
  "delivery_caption en videoData label = DeliveryCaption (title videoData) label (yourUsername en)"

definition should_show_ad :: "env \<Rightarrow> int \<Rightarrow> bool io" where
  "should_show_ad en userId = andThen (perform en (ShouldShowAd userId)) (ret (ad_due en userId))"

text \<open>
  The \<^verbatim>\<open>if (cached)\<close> block. The result says whether the function returned from inside
  the \<^verbatim>\<open>try\<close> (\<open>True\<close>) or left the block through the \<^verbatim>\<open>catch\<close> (\<open>False\<close>).
\<close>

definition serve_cached ::
  "env \<Rightarrow> VideoInfoDto \<Rightarrow> string \<Rightarrow> cache_entry \<Rightarrow> int \<Rightarrow> bool io" where
  "serve_cached en videoData label cached userId =
     andThen (logger (CacheHit label))
    (andThen (perform en (AnswerCallbackQuery FromCache))
      (try_catch
         (andThen (deliver en (label = ''audio'') (entry_fileId cached)
                     (delivery_caption en videoData label))
         (andThen (perform en (RecordCacheHit (entry_id cached) userId))
         (andThen (perform en (IncrementDownloads userId))
         (andThen (perform en (AdIncrementUserDownloads userId))
         (await (should_show_ad en userId) (\<lambda>due.
          andThen (if due then perform en ShowAd else ret ())
                  (ret True)))))))
         (\<lambda>e. andThen (logger FileIdStale) (ret False))))"

definition downloadKey :: "VideoInfoDto \<Rightarrow> string \<Rightarrow> string" where
  "downloadKey videoData fmt = video_id videoData @ ''|'' @ fmt"

text \<open>
  The duplicate check up to its \<^verbatim>\<open>await\<close>: \<open>True\<close> when the flow goes on to the queue.
\<close>

definition check_active :: "env \<Rightarrow> string \<Rightarrow> bool io" where
  "check_active en k w =
     (if k \<in> activeDownloads w
      then andThen (perform en (AnswerCallbackQuery AlreadyDownloading)) (ret False) w
      else andThen (perform en (AnswerCallbackQuery AddedToQueue)) (ret True) w)"

text \<open>
  Modelled from the spec: \<^verbatim>\<open>queue.service\<close> is not part of the sources. Per the spec,
  \<^verbatim>\<open>add\<close> takes the task and returns a promise that settles when the task completes or
  fails; whether it rejects for capacity is left to the surroundings. What follows the
  \<^verbatim>\<open>await\<close> of the duplicate check: the job is handed to the queue and the key
  registered. A job handed over counts as in flight until it settles.
\<close>

definition enqueue :: "env \<Rightarrow> job \<Rightarrow> string \<Rightarrow> unit io" where
  "enqueue en j k =
     andThen (perform en (QueueAdd j))
       (\<lambda>w. (Inr (), w\<lparr>submitted := submitted w @ [j],
                        activeDownloads := insert k (activeDownloads w)\<rparr>))"

definition settle :: "job \<Rightarrow> world \<Rightarrow> world" where
  \<comment> \<open>\<^verbatim>\<open>downloadPromise.finally(() => this.activeDownloads.delete(downloadKey))\<close>\<close>
  "settle j w =
     w\<lparr>submitted := remove1 j (submitted w),
       activeDownloads := activeDownloads w - {downloadKey (job_video j) (job_formatId j)}\<rparr>"

definition fresh_download :: "env \<Rightarrow> job \<Rightarrow> unit io" where
  "fresh_download en j =
     (let k = downloadKey (job_video j) (job_formatId j) in
      await (check_active en k) (\<lambda>go. if go then enqueue en j k else ret ()))"

definition lookup_session :: "env \<Rightarrow> string \<Rightarrow> VideoInfoDto option io" where
  "lookup_session en videoId w =
     (case videoDataCache w videoId of
        Some videoData \<Rightarrow> (Inr (Some videoData), w)
      | None \<Rightarrow>
          await (get en videoId) (\<lambda>dbData.
            case dbData of
              None \<Rightarrow> andThen (perform en (AnswerCallbackQuery LinkExpired)) (ret None)
            | Some d \<Rightarrow> andThen (cache_video videoId d) (ret (Some d))) w)"

definition handleQualitySelection ::
  "env \<Rightarrow> ctx \<Rightarrow> string \<Rightarrow> string \<Rightarrow> string \<Rightarrow> unit io" where
  "handleQualitySelection en c videoId fmt label =
     (case (chat c, from_user c) of
        (Some chatId, Some userId) \<Rightarrow>
          await (lookup_session en videoId) (\<lambda>session.
            case session of
              None \<Rightarrow> ret ()
            | Some videoData \<Rightarrow>
                await (cache_get en (video_id videoData) fmt label) (\<lambda>cached.
                await (case cached of
                         None \<Rightarrow> ret False
                       | Some entry \<Rightarrow> serve_cached en videoData label entry userId)
                  (\<lambda>returned.
                     if returned then ret ()
                     else fresh_download en
                            \<lparr>job_ctx = c, job_video = videoData, job_formatId = fmt,
                             job_resolution = label, job_userId = userId\<rparr>)))
      | _ \<Rightarrow> ret ())"

section \<open>DownloaderService.processDownload\<close>

definition filepath_of :: "env \<Rightarrow> job \<Rightarrow> string" where
  "filepath_of en j =
     downloadsDir en @ ''/'' @ sanitizeTitle en (title (job_video j)) @ ''_'' @ job_formatId j @
       ''.'' @ (if job_resolution j = ''audio'' then ''m4a'' else ''mp4'')"

definition sourceUrl :: "job \<Rightarrow> string" where
  "sourceUrl j =
     (if url (job_video j) \<noteq> [] then url (job_video j)
      else ''https://www.youtube.com/watch?v='' @ video_id (job_video j))"

text \<open>
  \<^verbatim>\<open>ytdlpService.downloadVideo\<close> as seen by its caller: the subprocess either exits with
  code 0, leaving the file, or the promise is rejected. The progress edits it triggers
  are not awaited and their errors are dropped; they are left out.
\<close>

definition downloadVideo :: "env \<Rightarrow> string \<Rightarrow> string \<Rightarrow> string \<Rightarrow> bool \<Rightarrow> unit io" where
  "downloadVideo en u fmt outputPath isAudio =
     andThen (perform en (YtdlpDownload u fmt outputPath isAudio))
       (\<lambda>w. (Inr (), w\<lparr>files := insert outputPath (files w)\<rparr>))"

definition cacheToChannel :: "env \<Rightarrow> string \<Rightarrow> bool \<Rightarrow> upload_result io" where
  "cacheToChannel en path isAudio =
     andThen (perform en (CacheToChannel path isAudio)) (ret (archive_ref en path))"

definition fs_stat :: "env \<Rightarrow> string \<Rightarrow> int io" where
  "fs_stat en path = andThen (perform en (FsStat path)) (ret (stat_size en path))"

definition fs_unlink :: "env \<Rightarrow> string \<Rightarrow> unit io" where
  "fs_unlink en path =
     andThen (perform en (FsUnlink path)) (\<lambda>w. (Inr (), w\<lparr>files := files w - {path}\<rparr>))"

definition write_of :: "job \<Rightarrow> upload_result \<Rightarrow> int \<Rightarrow> cache_write" where
  "write_of j uploadResult sz =
     \<lparr>cw_url = video_id (job_video j), cw_formatId = job_formatId j,
      cw_resolution = job_resolution j, cw_fileId = up_fileId uploadResult,
      cw_archiveMessageId = up_messageId uploadResult, cw_fileSize = sz,
      cw_fileType = (if job_resolution j = ''audio'' then ''audio'' else ''video''),
      cw_userId = job_userId j, cw_title = title (job_video j),
      cw_uploader = (if uploader (job_video j) = [] then None else Some (uploader (job_video j))),
      cw_duration = (if duration (job_video j) = 0 then None else Some (duration (job_video j)))\<rparr>"

definition save_to_cache :: "env \<Rightarrow> job \<Rightarrow> upload_result \<Rightarrow> unit io" where
  \<comment> \<open>step 3, with its own \<^verbatim>\<open>try\<close>/\<^verbatim>\<open>catch\<close>\<close>
  "save_to_cache en j uploadResult =
     try_catch
       (await (fs_stat en (filepath_of en j)) (\<lambda>sz.
          andThen (cache_set en (write_of j uploadResult sz)) (logger CacheSaved)))
       (\<lambda>dbError. logger (CacheSaveError dbError))"

definition deliver_and_clean :: "env \<Rightarrow> job \<Rightarrow> upload_result \<Rightarrow> unit io" where
  \<comment> \<open>steps 4 to 6: delivery to the user, cleanup, statistics\<close>
  "deliver_and_clean en j uploadResult =
     andThen (deliver en (job_resolution j = ''audio'') (up_fileId uploadResult)
                 (delivery_caption en (job_video j) (job_resolution j)))
    (andThen (swallow (perform en DeleteMessage))
    (andThen (swallow (fs_unlink en (filepath_of en j)))
    (andThen (perform en (IncrementDownloads (job_userId j)))
             (perform en (AdIncrementUserDownloads (job_userId j))))))"

definition download_steps :: "env \<Rightarrow> job \<Rightarrow> unit io" where
  \<comment> \<open>the outer \<^verbatim>\<open>try\<close> block after the first reply\<close>
  "download_steps en j =
     (let isAudio = (job_resolution j = ''audio''); path = filepath_of en j in
      andThen (downloadVideo en (sourceUrl j) (job_formatId j) path isAudio)
     (andThen (perform en (EditMessageText UploadingToTelegram []))
     (await (cacheToChannel en path isAudio) (\<lambda>uploadResult.
      andThen (logger (CacheWriteAttempt (video_id (job_video j))))
     (andThen (save_to_cache en j uploadResult)
              (deliver_and_clean en j uploadResult))))))"

definition download_failed :: "env \<Rightarrow> error \<Rightarrow> unit io" where
  \<comment> \<open>the outer \<^verbatim>\<open>catch\<close> block, \<^verbatim>\<open>progressMsg\<close> being set\<close>
  "download_failed en e =
     andThen (logger (DownloadError e))
             (swallow (perform en (EditMessageText (ErrorText e) [])))"

definition processDownload :: "env \<Rightarrow> job \<Rightarrow> unit io" where
  "processDownload en j =
     (case chat (job_ctx j) of
        None \<Rightarrow> ret ()
      | Some chatId \<Rightarrow>
          attempt (perform en (Reply StartingDownload))
            (\<lambda>progressMsg. try_catch (download_steps en j) (download_failed en))
            (\<lambda>e. logger (DownloadError e)))"

definition cache_write_ok :: "env \<Rightarrow> job \<Rightarrow> env" where
  \<comment> \<open>the same surroundings, except that the two calls of step 3 succeed\<close>
  "cache_write_ok en j =
     en\<lparr>faults := (faults en)
          (FsStat (filepath_of en j) := None,
           CacheSet (write_of j (archive_ref en (filepath_of en j))
                       (stat_size en (filepath_of en j))) := None)\<rparr>"

section \<open>Concurrent selection requests\<close>

text \<open>
  The flows of one process interleave at their \<^verbatim>\<open>await\<close>s only. A selection flow that has
  reached the duplicate check is at the check, suspended in the \<^verbatim>\<open>await\<close> between the
  check and the registration, or finished. A move runs one flow from one suspension
  point to the next, or settles a job that was handed to the queue.
\<close>

datatype pc = AtCheck | Awaiting | Finished

record flow =
  flow_job :: job
  flow_pc :: pc

datatype move = Check nat | Resume nat | Settle nat

definition flow_key :: "flow \<Rightarrow> string" where
  "flow_key f = downloadKey (job_video (flow_job f)) (job_formatId (flow_job f))"

fun step :: "env \<Rightarrow> flow list \<times> world \<Rightarrow> move \<Rightarrow> flow list \<times> world" where
  "step en (flows, w) (Check i) =
     (if i < length flows \<and> flow_pc (flows ! i) = AtCheck then
        (case check_active en (flow_key (flows ! i)) w of
           (Inr True, w') \<Rightarrow> (flows[i := (flows ! i)\<lparr>flow_pc := Awaiting\<rparr>], w')
         | (_, w') \<Rightarrow> (flows[i := (flows ! i)\<lparr>flow_pc := Finished\<rparr>], w'))
      else (flows, w))"
| "step en (flows, w) (Resume i) =
     (if i < length flows \<and> flow_pc (flows ! i) = Awaiting then
        (flows[i := (flows ! i)\<lparr>flow_pc := Finished\<rparr>],
         snd (enqueue en (flow_job (flows ! i)) (flow_key (flows ! i)) w))
      else (flows, w))"
| "step en (flows, w) (Settle n) =
     (if n < length (submitted w) then (flows, settle (submitted w ! n) w) else (flows, w))"

definition run_moves :: "env \<Rightarrow> flow list \<times> world \<Rightarrow> move list \<Rightarrow> flow list \<times> world" where
  "run_moves en st moves = foldl (step en) st moves"

definition in_flight :: "string \<Rightarrow> world \<Rightarrow> job list" where
  "in_flight k w = filter (\<lambda>j. downloadKey (job_video j) (job_formatId j) = k) (submitted w)"

section \<open>Observations on a run\<close>

definition rejection :: "env \<Rightarrow> string \<Rightarrow> error" where
  \<comment> \<open>the error the store answers a \<^verbatim>\<open>create\<close> under a present id with\<close>
  "rejection en i =
     (case faults en (PrismaCreate i) of None \<Rightarrow> PrismaError ''P2002'' | Some e \<Rightarrow> e)"

definition choice_list :: "env \<Rightarrow> string \<Rightarrow> FormatDto list" where
  \<comment> \<open>the formats \<^verbatim>\<open>handleUrl\<close> shows for a URL, from the fetcher's dump\<close>
  "choice_list en u = visibleFormats (formats (videoInfo_of u (metadata en u)))"

definition emits :: "(call \<Rightarrow> bool) \<Rightarrow> 'a io \<Rightarrow> bool" where
  \<comment> \<open>every call the program makes, from any state, satisfies the predicate\<close>
  "emits P m = (\<forall>w. \<exists>cs. trace (snd (m w)) = trace w @ cs \<and> (\<forall>c \<in> set cs. P c))"

definition new_calls :: "'a io \<Rightarrow> world \<Rightarrow> call list" where
  \<comment> \<open>the calls a run adds to the record\<close>
  "new_calls m w = drop (length (trace w)) (trace (snd (m w)))"

fun offered :: "call \<Rightarrow> button list" where
  "offered (ReplyWithPhoto photo caption keyboard) = keyboard"
| "offered (EditMessageText caption keyboard) = keyboard"
| "offered _ = []"

fun user_facing :: "call \<Rightarrow> bool" where
  "user_facing (Reply m) = True"
| "user_facing (AnswerCallbackQuery m) = True"
| "user_facing (ReplyWithAudio f m) = True"
| "user_facing (ReplyWithVideo f m) = True"
| "user_facing (ReplyWithPhoto f m k) = True"
| "user_facing (EditMessageText m k) = True"
| "user_facing DeleteMessage = True"
| "user_facing ShowAd = True"
| "user_facing _ = False"

text \<open>What every call of a run of \<^verbatim>\<open>handleUrl\<close> satisfies: no keyboard, or the choice list.\<close>

definition choice_ok :: "env \<Rightarrow> string \<Rightarrow> call \<Rightarrow> bool" where
  "choice_ok en u c =
     (offered c = [] \<or> (choice_list en u \<noteq> [] \<and> map shown (offered c) = choice_list en u))"

text \<open>
  A program is uniform when its result and the calls it makes do not depend on the
  state it starts from, and it touches the state only by adding to the call record and
  by changing the set of files in one fixed way.
\<close>

definition uniform :: "'a io \<Rightarrow> bool" where
  "uniform m = (\<exists>r F T. \<forall>w. m w = (r, w\<lparr>files := F (files w), trace := trace w @ T\<rparr>))"

text \<open>The state of a job once download and upload have gone through.\<close>

definition after_upload :: "env \<Rightarrow> job \<Rightarrow> world \<Rightarrow> world" where
  "after_upload en j w =
     w\<lparr>files := insert (filepath_of en j) (files w),
       trace := trace w @
         [Reply StartingDownload,
          YtdlpDownload (sourceUrl j) (job_formatId j) (filepath_of en j)
            (job_resolution j = ''audio''),
          EditMessageText UploadingToTelegram [],
          CacheToChannel (filepath_of en j) (job_resolution j = ''audio''),
          Logger (CacheWriteAttempt (video_id (job_video j)))]\<rparr>"

section \<open>Concrete surroundings used in the worked examples\<close>

definition sample_metadata :: raw_metadata where
  "sample_metadata =
     \<lparr>meta_id = ''vid1'', meta_webpage_url = Some ''https://example.org/watch?v=vid1'',
      meta_title = ''clip'', meta_uploader = Some ''someone'', meta_channel = None,
      meta_duration = Some 60, meta_view_count = Some 10, meta_like_count = None,
      meta_upload_date = Some ''20250101'', meta_thumbnail = None,
      meta_formats = Some sample_formats\<rparr>"

definition low_metadata :: raw_metadata where
  \<comment> \<open>a resource whose only rendition is 240p\<close>
  "low_metadata = sample_metadata\<lparr>meta_formats := Some [video_record ''133'' ''avc1.4d4015'' 240 300]\<rparr>"

definition quiet :: env where
  \<comment> \<open>surroundings in which no call throws\<close>
  "quiet =
     \<lparr>faults = (\<lambda>c. None),
      metadata = (\<lambda>u. if u = ''low'' then low_metadata else sample_metadata),
      randomHex = ''00a1b2c3d4e5f607'', downloadsDir = ''/tmp/bot_downloads'',
      yourUsername = ''@your_bot'', sanitizeTitle = (\<lambda>t. t),
      archive_ref = (\<lambda>p. \<lparr>up_fileId = ''ref123'', up_messageId = 7\<rparr>),
      stat_size = (\<lambda>p. 50000000), ad_due = (\<lambda>u. False),
      entry_id_of = (\<lambda>k. ''entry1''), seven_days_later = (\<lambda>t. t + 604800000)\<rparr>"

definition failing :: "call \<Rightarrow> error \<Rightarrow> env \<Rightarrow> env" where
  \<comment> \<open>the same surroundings, except that the given call throws\<close>
  "failing c e en = en\<lparr>faults := (faults en)(c \<mapsto> e)\<rparr>"

definition sample_info :: VideoInfoDto where
  "sample_info =
     \<lparr>video_id = ''vid1'', url = ''https://example.org/watch?v=vid1'', title = ''clip'',
      uploader = ''someone'', duration = 60, viewCount = 10, likeCount = 0,
      uploadDate = ''20250101'', thumbnail = [],
      formats =
        [\<lparr>formatId = ''136'', ext = ''mp4'', resolution = ''720p'', filesize = 1000,
          quality = 720, hasAudio = False, vcodec = Some ''avc1.64001f''\<rparr>,
         \<lparr>formatId = ''140'', ext = ''m4a'', resolution = ''audio'', filesize = 7,
          quality = 0, hasAudio = True, vcodec = None\<rparr>]\<rparr>"

definition other_info :: VideoInfoDto where
  "other_info = sample_info\<lparr>title := ''renamed''\<rparr>"

definition user_ctx :: ctx where
  "user_ctx = \<lparr>chat = Some 42, from_user = Some 1001\<rparr>"

definition second_ctx :: ctx where
  "second_ctx = \<lparr>chat = Some 43, from_user = Some 1002\<rparr>"

definition empty_world :: world where
  "empty_world =
     \<lparr>now = 1000, sessions = Map.empty, cache = Map.empty, files = {},
      videoDataCache = Map.empty, activeDownloads = {}, submitted = [], trace = []\<rparr>"

definition sample_job :: job where
  "sample_job =
     \<lparr>job_ctx = user_ctx, job_video = sample_info, job_formatId = ''136'',
      job_resolution = ''720p'', job_userId = 1001\<rparr>"

definition second_job :: job where
  "second_job = sample_job\<lparr>job_ctx := second_ctx, job_userId := 1002\<rparr>"

definition sample_path :: string where
  "sample_path = ''/tmp/bot_downloads/clip_136.mp4''"

definition cached_entry :: cache_entry where
  "cached_entry = \<lparr>entry_id = ''entry1'', entry_fileId = ''ref123''\<rparr>"

definition stored_world :: world where
  \<comment> \<open>a session \<^verbatim>\<open>s1\<close> in the table, expiring at 5000\<close>
  "stored_world = empty_world\<lparr>sessions := [''s1'' \<mapsto> row_of sample_info 5000]\<rparr>"

definition expired_world :: world where
  "expired_world = stored_world\<lparr>now := 6000\<rparr>"

definition hit_world :: world where
  \<comment> \<open>session \<^verbatim>\<open>s1\<close> in the in-process map and a cache entry for its 720p rendition\<close>
  "hit_world =
     empty_world\<lparr>videoDataCache := [''s1'' \<mapsto> sample_info],
                 cache := [(''vid1'', ''136'', ''720p'') \<mapsto> cached_entry]\<rparr>"

definition sample_delivery :: call where
  "sample_delivery = ReplyWithVideo ''ref123'' (DeliveryCaption ''clip'' ''720p'' ''@your_bot'')"

definition stale_reference :: env where
  \<comment> \<open>the cached file reference is no longer accepted\<close>
  "stale_reference = failing sample_delivery (ExternalError ''wrong file identifier'') quiet"

definition bookkeeping_fails :: env where
  \<comment> \<open>the user service cannot count the download\<close>
  "bookkeeping_fails = failing (IncrementDownloads 1001) (ExternalError ''users table'') quiet"

definition upload_fails :: env where
  \<comment> \<open>the upload to the archive channel is rejected\<close>
  "upload_fails = failing (CacheToChannel sample_path False) (ExternalError ''upload'') quiet"

definition sample_write :: cache_write where
  "sample_write = write_of sample_job (archive_ref quiet sample_path) (stat_size quiet sample_path)"

definition cache_down :: env where
  \<comment> \<open>the cache table rejects the write\<close>
  "cache_down = failing (CacheSet sample_write) (PrismaError ''P1001'') quiet"

definition two_flows :: "flow list" where
  \<comment> \<open>two users select the same format of the same video at the same time\<close>
  "two_flows = [\<lparr>flow_job = sample_job, flow_pc = AtCheck\<rparr>,
                \<lparr>flow_job = second_job, flow_pc = AtCheck\<rparr>]"

section \<open>Properties of the format resolver\<close>

declare show_nat.simps [simp del]

lemma update_mem:
  "(k, e) \<in> set (AList.update k' v al) \<Longrightarrow> (k, e) \<in> set al \<or> (k, e) = (k', v)"
  by (induction al) (auto split: if_splits)

lemma forEach_body_audio:
  "snd (foldl forEach_body (v, a) fs) = a @ map audioDto (filter is_audio_only fs)"
  by (induction fs arbitrary: v a) (auto simp: forEach_body_def is_audio_only_def)

lemma forEach_body_distinct:
  "distinct (map fst v) \<Longrightarrow> distinct (map fst (fst (foldl forEach_body (v, a) fs)))"
  by (induction fs arbitrary: v a) (auto simp: forEach_body_def distinct_update)

lemma forEach_body_entries:
  "(k, e) \<in> set (fst (foldl forEach_body (v, a) fs)) \<Longrightarrow>
   (k, e) \<in> set v \<or> (144 \<le> k \<and> (\<exists>f \<in> set fs. hasVideo f \<and> height f = k \<and> 0 < size_of f \<and> e = videoDto f))"
proof (induction fs arbitrary: v a)
  case Nil
  then show ?case by simp
next
  case (Cons f fs)
  obtain v' a' where st: "forEach_body (v, a) f = (v', a')" by (cases "forEach_body (v, a) f")
  from Cons.prems st have mem: "(k, e) \<in> set (fst (foldl forEach_body (v', a') fs))" by simp
  from Cons.IH [OF mem] show ?case
  proof
    assume in_v': "(k, e) \<in> set v'"
    show ?thesis
    proof (cases "v' = v")
      case True
      with in_v' show ?thesis by simp
    next
      case False
      with st have upd: "v' = AList.update (height f) (videoDto f) v"
        and ok: "hasVideo f" "\<not> height f < 144" "takes f (map_of v (height f))"
        by (auto simp: forEach_body_def split: if_splits)
      from in_v' upd have "(k, e) \<in> set v \<or> (k, e) = (height f, videoDto f)"
        using update_mem [of k e "height f" "videoDto f" v] by auto
      with ok show ?thesis by (auto simp: takes_def)
    qed
  next
    assume "144 \<le> k \<and> (\<exists>f \<in> set fs. hasVideo f \<and> height f = k \<and> 0 < size_of f \<and> e = videoDto f)"
    then show ?thesis by auto
  qed
qed


lemma challenge_keeps: "inc \<noteq> None \<Longrightarrow> foldl challenge inc fs \<noteq> None"
  by (induction fs arbitrary: inc) (auto simp: challenge_def)

lemma challenge_starts:
  "\<exists>f \<in> set fs. 0 < size_of f \<Longrightarrow> foldl challenge None fs \<noteq> None"
proof (induction fs)
  case Nil
  then show ?case by simp
next
  case (Cons f fs)
  show ?case
  proof (cases "0 < size_of f")
    case True
    then have "challenge None f \<noteq> None" by (simp add: challenge_def takes_def)
    then show ?thesis using challenge_keeps by simp
  next
    case False
    then have "challenge None f = None" by (simp add: challenge_def takes_def)
    with Cons False show ?thesis by auto
  qed
qed

lemma getBestFormats_parts: "getBestFormats fs = sortedVideos fs @ audioTail fs"
  by (simp add: getBestFormats_def sortedVideos_def audioTail_def videoFormats_def
      audioFormats_def split: prod.splits option.splits)

lemma audioFormats_eq: "audioFormats fs = map audioDto (filter is_audio_only fs)"
  using forEach_body_audio [of "[]" "[]" fs] by (simp add: audioFormats_def)

lemma videoFormats_distinct: "distinct (map fst (videoFormats fs))"
  using forEach_body_distinct [of "[]" "[]" fs] by (simp add: videoFormats_def)

lemma videoFormats_entries:
  "(k, e) \<in> set (videoFormats fs) \<Longrightarrow>
   144 \<le> k \<and> (\<exists>f \<in> set fs. hasVideo f \<and> height f = k \<and> 0 < size_of f \<and> e = videoDto f)"
  using forEach_body_entries [of k e "[]" "[]" fs] by (simp add: videoFormats_def)

lemma videoFormats_quality: "map quality (map snd (videoFormats fs)) = map fst (videoFormats fs)"
proof -
  have "\<forall>p \<in> set (videoFormats fs). quality (snd p) = fst p"
  proof
    fix p assume "p \<in> set (videoFormats fs)"
    then have "(fst p, snd p) \<in> set (videoFormats fs)" by simp
    from videoFormats_entries [OF this] show "quality (snd p) = fst p"
      by (auto simp: videoDto_def)
  qed
  then show ?thesis by (induction "videoFormats fs") auto
qed


lemma sortedVideos_set: "set (sortedVideos fs) = snd ` set (videoFormats fs)"
  by (simp add: sortedVideos_def)

lemma sorted_distinct_strict:
  fixes k :: "'a \<Rightarrow> int"
  shows "sorted (map k xs) \<Longrightarrow> distinct (map k xs) \<Longrightarrow> sorted_wrt (\<lambda>a b. k a < k b) xs"
  by (induction xs) (auto simp: order.strict_iff_order)

lemma sortedVideos_descending:
  "sorted_wrt (\<lambda>a b. quality a > quality b) (sortedVideos fs)"
proof -
  let ?k = "\<lambda>a :: FormatDto. - quality a"
  let ?xs = "map snd (videoFormats fs)"
  have "distinct (map quality ?xs)"
    using videoFormats_distinct [of fs] by (simp only: videoFormats_quality)
  then have "distinct ?xs \<and> inj_on ?k (set ?xs)"
    by (auto simp: distinct_map inj_on_def)
  then have d: "distinct (map ?k (sort_key ?k ?xs))"
    by (simp add: distinct_map)
  have s: "sorted (map ?k (sort_key ?k ?xs))" by (rule sorted_sort_key)
  from sorted_distinct_strict [OF s d] show ?thesis by (simp add: sortedVideos_def)
qed

lemma sort_key_head:
  fixes k :: "'a \<Rightarrow> int"
  assumes "sort_key k xs = a # rest"
  shows "a \<in> set xs \<and> (\<forall>b \<in> set xs. k a \<le> k b)"
proof -
  have "set (a # rest) = set xs" using assms by (metis set_sort)
  moreover have "sorted (map k (a # rest))" using assms by (metis sorted_sort_key)
  ultimately show ?thesis by auto
qed

lemma audioTail_cases:
  "(audioTail fs = [] \<and> \<not> (\<exists>f \<in> set fs. is_audio_only f)) \<or>
   (\<exists>g \<in> set fs. is_audio_only g \<and> audioTail fs = [audioDto g] \<and>
      (\<forall>f \<in> set fs. is_audio_only f \<longrightarrow> size_of f \<le> size_of g))"
proof (cases "sort_key (\<lambda>a. - filesize a) (audioFormats fs)")
  case Nil
  then have "audioFormats fs = []" by (metis set_sort set_empty)
  then have "\<not> (\<exists>f \<in> set fs. is_audio_only f)"
    by (auto simp: audioFormats_eq filter_empty_conv)
  with Nil show ?thesis by (simp add: audioTail_def bestAudio_def)
next
  case (Cons a rest)
  from sort_key_head [OF Cons]
  have mem: "a \<in> set (audioFormats fs)"
    and top: "\<forall>b \<in> set (audioFormats fs). filesize b \<le> filesize a" by auto
  from mem obtain g where g: "g \<in> set fs" "is_audio_only g" "a = audioDto g"
    by (auto simp: audioFormats_eq)
  have "\<forall>f \<in> set fs. is_audio_only f \<longrightarrow> size_of f \<le> size_of g"
  proof (intro ballI impI)
    fix f assume "f \<in> set fs" "is_audio_only f"
    then have "audioDto f \<in> set (audioFormats fs)" by (simp add: audioFormats_eq)
    with top have "filesize (audioDto f) \<le> filesize a" by blast
    with g show "size_of f \<le> size_of g" by (simp add: audioDto_def)
  qed
  with g Cons show ?thesis by (auto simp: audioTail_def bestAudio_def)
qed

lemma videoDto_not_audio: "resolution (videoDto f) \<noteq> ''audio''"
proof
  assume "resolution (videoDto f) = ''audio''"
  then have "last (show_int (height f) @ ''p'') = last ''audio''" by (simp add: videoDto_def)
  then show False by simp
qed





text \<open>
  Claim C4. For every list of raw format records the output is a run of video candidates
  followed by an audio tail. Every video candidate comes from a video-bearing record,
  has height at least 144 and is not labelled audio; the heights are strictly
  descending, hence one candidate per height. The tail is empty when the input has no
  audio-only record, and otherwise is the single entry built from an audio-only record
  whose declared size no other audio-only record exceeds. The empty input gives the
  empty list.
\<close>

theorem resolver_output_shape:
  "(\<exists>videos audio.
      getBestFormats fs = videos @ audio \<and>
      (\<forall>v \<in> set videos. 144 \<le> quality v \<and> resolution v \<noteq> ''audio'' \<and>
         (\<exists>f \<in> set fs. hasVideo f \<and> v = videoDto f)) \<and>
      sorted_wrt (\<lambda>a b. quality a > quality b) videos \<and>
      (if \<exists>f \<in> set fs. is_audio_only f
       then \<exists>g \<in> set fs. is_audio_only g \<and> audio = [audioDto g] \<and>
              (\<forall>f \<in> set fs. is_audio_only f \<longrightarrow> size_of f \<le> size_of g)
       else audio = [])) \<and>
   getBestFormats [] = []"
proof -
  have vids: "\<forall>v \<in> set (sortedVideos fs). 144 \<le> quality v \<and> resolution v \<noteq> ''audio'' \<and>
         (\<exists>f \<in> set fs. hasVideo f \<and> v = videoDto f)"
  proof
    fix v assume "v \<in> set (sortedVideos fs)"
    then obtain k where "(k, v) \<in> set (videoFormats fs)"
      by (auto simp: sortedVideos_set)
    from videoFormats_entries [OF this] obtain f where
      f: "144 \<le> k" "f \<in> set fs" "hasVideo f" "height f = k" "v = videoDto f" by auto
    then have "quality v = k" by (simp add: videoDto_def)
    with f videoDto_not_audio [of f] show "144 \<le> quality v \<and> resolution v \<noteq> ''audio'' \<and>
         (\<exists>f \<in> set fs. hasVideo f \<and> v = videoDto f)" by auto
  qed
  have aud: "if \<exists>f \<in> set fs. is_audio_only f
       then \<exists>g \<in> set fs. is_audio_only g \<and> audioTail fs = [audioDto g] \<and>
              (\<forall>f \<in> set fs. is_audio_only f \<longrightarrow> size_of f \<le> size_of g)
       else audioTail fs = []"
    using audioTail_cases [of fs] by auto
  have empty: "getBestFormats [] = []"
    by (simp add: getBestFormats_def bestAudio_def)
  from getBestFormats_parts vids sortedVideos_descending aud empty show ?thesis by blast
qed

theorem resolver_output_shape_witness:
  "getBestFormats sample_formats =
     [videoDto avc_720_1000, videoDto vp9_360_500, audioDto audio_7] \<and>
   (\<exists>videos audio.
      getBestFormats sample_formats = videos @ audio \<and>
      (\<forall>v \<in> set videos. 144 \<le> quality v \<and> resolution v \<noteq> ''audio'' \<and>
         (\<exists>f \<in> set sample_formats. hasVideo f \<and> v = videoDto f)) \<and>
      sorted_wrt (\<lambda>a b. quality a > quality b) videos \<and>
      (if \<exists>f \<in> set sample_formats. is_audio_only f
       then \<exists>g \<in> set sample_formats. is_audio_only g \<and> audio = [audioDto g] \<and>
              (\<forall>f \<in> set sample_formats. is_audio_only f \<longrightarrow> size_of f \<le> size_of g)
       else audio = []))"
proof -
  have "getBestFormats sample_formats =
     [videoDto avc_720_1000, videoDto vp9_360_500, audioDto audio_7]"
    by code_simp
  with resolver_output_shape [of sample_formats] show ?thesis by blast
qed









section \<open>Properties of progress reporting\<close>









section \<open>Properties of the session store\<close>

lemmas io_defs = ret_def throw_def await_def andThen_def try_catch_def swallow_def
  perform_def logger_def attempt_def

lemma delete_sessions:
  "sessions (snd (delete en videoId w)) =
     (if faults en (PrismaDelete videoId) = None then (sessions w)(videoId := None)
      else sessions w)"
  by (auto simp: delete_def prisma_delete_def io_defs split: option.splits)

lemma delete_returns: "fst (delete en videoId w) = Inr ()"
  by (auto simp: delete_def prisma_delete_def io_defs split: option.splits)

text \<open>
  Claim C5. For every session id whose stored session has expired (\<open>now > expiresAt\<close>),
  \<^verbatim>\<open>get\<close> returns "not found", whatever the store does; and when the store's lookup and
  delete go through, the expired row is gone from the table afterwards. Session data
  is never returned past its expiry: whenever \<^verbatim>\<open>get\<close> returns a session, the table holds
  it and \<open>now \<le> expiresAt\<close>.
\<close>

theorem get_expired_session:
  "(sessions w videoId = Some session \<and> now w > expiresAt session \<longrightarrow>
      fst (get en videoId w) = Inr None \<and>
      (faults en (PrismaFindUnique videoId) = None \<and> faults en (PrismaDelete videoId) = None \<longrightarrow>
         sessions (snd (get en videoId w)) videoId = None)) \<and>
   (fst (get en videoId w) = Inr (Some info) \<longrightarrow>
      (\<exists>s. sessions w videoId = Some s \<and> now w \<le> expiresAt s \<and> info = info_of s))"
proof (intro conjI impI)
  assume a: "sessions w videoId = Some session \<and> now w > expiresAt session"
  show "fst (get en videoId w) = Inr None"
  proof (cases "faults en (PrismaFindUnique videoId)")
    case None
    with a show ?thesis
      using delete_returns [of en videoId "w\<lparr>trace := trace w @ [PrismaFindUnique videoId, Logger (SessionExpired videoId)]\<rparr>"]
      by (simp add: get_def prisma_findUnique_def io_defs split: prod.splits sum.splits)
  next
    case (Some e)
    then show ?thesis by (simp add: get_def prisma_findUnique_def io_defs)
  qed
next
  assume a: "sessions w videoId = Some session \<and> now w > expiresAt session"
  assume f: "faults en (PrismaFindUnique videoId) = None \<and> faults en (PrismaDelete videoId) = None"
  let ?w1 = "w\<lparr>trace := trace w @ [PrismaFindUnique videoId, Logger (SessionExpired videoId)]\<rparr>"
  have "sessions (snd (delete en videoId ?w1)) videoId = None"
    using f by (simp add: delete_sessions)
  moreover have "fst (delete en videoId ?w1) = Inr ()" by (rule delete_returns)
  ultimately show "sessions (snd (get en videoId w)) videoId = None"
    using a f
    by (auto simp: get_def prisma_findUnique_def io_defs split: prod.splits sum.splits)
next
  assume r: "fst (get en videoId w) = Inr (Some info)"
  show "\<exists>s. sessions w videoId = Some s \<and> now w \<le> expiresAt s \<and> info = info_of s"
  proof (cases "faults en (PrismaFindUnique videoId)")
    case (Some e)
    with r show ?thesis by (simp add: get_def prisma_findUnique_def io_defs)
  next
    case None
    show ?thesis
    proof (cases "sessions w videoId")
      case N: None
      with None r show ?thesis by (simp add: get_def prisma_findUnique_def io_defs)
    next
      case (Some s)
      show ?thesis
      proof (cases "now w > expiresAt s")
        case True
        with None Some r show ?thesis
          using delete_returns [of en videoId "w\<lparr>trace := trace w @ [PrismaFindUnique videoId, Logger (SessionExpired videoId)]\<rparr>"]
          by (simp add: get_def prisma_findUnique_def io_defs split: prod.splits sum.splits)
      next
        case False
        with None Some r show ?thesis
          by (auto simp: get_def prisma_findUnique_def io_defs)
      qed
    qed
  qed
qed

theorem get_expired_session_witness:
  "(sessions expired_world ''s1'' = Some (row_of sample_info 5000) \<and>
    now expired_world > expiresAt (row_of sample_info 5000)) \<and>
   (faults quiet (PrismaFindUnique ''s1'') = None \<and> faults quiet (PrismaDelete ''s1'') = None) \<and>
   fst (get quiet ''s1'' expired_world) = Inr None \<and>
   sessions (snd (get quiet ''s1'' expired_world)) ''s1'' = None \<and>
   fst (get quiet ''s1'' stored_world) = Inr (Some (info_of (row_of sample_info 5000))) \<and>
   (\<exists>s. sessions stored_world ''s1'' = Some s \<and> now stored_world \<le> expiresAt s \<and>
        info_of (row_of sample_info 5000) = info_of s)"
proof -
  have h1: "sessions expired_world ''s1'' = Some (row_of sample_info 5000) \<and>
    now expired_world > expiresAt (row_of sample_info 5000)"
    by (simp add: expired_world_def stored_world_def empty_world_def row_of_def)
  have h2: "faults quiet (PrismaFindUnique ''s1'') = None \<and> faults quiet (PrismaDelete ''s1'') = None"
    by (simp add: quiet_def)
  have h3: "fst (get quiet ''s1'' stored_world) = Inr (Some (info_of (row_of sample_info 5000)))"
    by (simp add: get_def prisma_findUnique_def io_defs quiet_def stored_world_def
        empty_world_def row_of_def)
  from get_expired_session [of expired_world "''s1''" "row_of sample_info 5000" quiet]
    get_expired_session [of stored_world "''s1''" _ quiet "info_of (row_of sample_info 5000)"]
    h1 h2 h3
  show ?thesis by blast
qed

text \<open>
  Claim C6, as amended. For every session id that already has a stored session,
  \<^verbatim>\<open>save\<close> under the same id fails. The store is asked once to create the row and
  refuses; \<^verbatim>\<open>save\<close> logs the store's error and rethrows that same error to its caller,
  and it makes no other call. The table is left as it was, old metadata and old
  \<open>expiresAt\<close> included.
\<close>

theorem save_existing_rejected:
  "sessions w videoId = Some old \<longrightarrow>
     fst (save en videoId videoInfo w) = Inl (rejection en videoId) \<and>
     new_calls (save en videoId videoInfo) w =
       [PrismaCreate videoId, Logger (SessionSaveError (rejection en videoId))] \<and>
     sessions (snd (save en videoId videoInfo w)) = sessions w"
  by (simp add: save_def prisma_create_def rejection_def new_calls_def io_defs Let_def
      split: option.splits)

theorem save_existing_rejected_witness:
  "sessions stored_world ''s1'' = Some (row_of sample_info 5000) \<and>
   rejection quiet ''s1'' = PrismaError ''P2002'' \<and>
   fst (save quiet ''s1'' other_info stored_world) = Inl (PrismaError ''P2002'') \<and>
   new_calls (save quiet ''s1'' other_info) stored_world =
     [PrismaCreate ''s1'', Logger (SessionSaveError (PrismaError ''P2002''))] \<and>
   sessions (snd (save quiet ''s1'' other_info stored_world)) = sessions stored_world"
proof -
  have h: "sessions stored_world ''s1'' = Some (row_of sample_info 5000)"
    by (simp add: stored_world_def empty_world_def)
  have r: "rejection quiet ''s1'' = PrismaError ''P2002''"
    by (simp add: rejection_def quiet_def)
  from save_existing_rejected [of stored_world "''s1''" "row_of sample_info 5000" quiet other_info]
    h r
  show ?thesis by simp
qed

text \<open>
  The claim as first stated fails: a second \<^verbatim>\<open>save\<close> under the stored id \<^verbatim>\<open>s1\<close> is
  rejected with \<^verbatim>\<open>P2002\<close> and the old row stays.
\<close>

theorem save_overwrite_counterexample:
  "sessions stored_world ''s1'' = Some (row_of sample_info 5000) \<and>
   row_of other_info (seven_days_later quiet (now stored_world)) \<noteq> row_of sample_info 5000 \<and>
   fst (save quiet ''s1'' other_info stored_world) = Inl (PrismaError ''P2002'') \<and>
   sessions (snd (save quiet ''s1'' other_info stored_world)) ''s1'' =
     Some (row_of sample_info 5000)"
  by code_simp

section \<open>Properties of the choice list\<close>

subsection \<open>parseInt of a printed height\<close>

lemma of_char_digit: "d < 10 \<Longrightarrow> (of_char (digit_char d) :: nat) = 48 + d"
  by (simp add: digit_char_def)

lemma digit_char_props:
  assumes "d < 10"
  shows "is_digit (digit_char d) \<and> digit_val (digit_char d) = int d \<and>
     \<not> is_space (digit_char d) \<and> digit_char d \<noteq> CHR ''-'' \<and> digit_char d \<noteq> CHR ''+''"
proof -
  have v: "(of_char (digit_char d) :: nat) = 48 + d" using assms by (rule of_char_digit)
  have "digit_char d \<noteq> CHR ''-''"
  proof
    assume "digit_char d = CHR ''-''"
    then have "(of_char (digit_char d) :: nat) = of_char CHR ''-''" by simp
    with v show False by simp
  qed
  moreover have "digit_char d \<noteq> CHR ''+''"
  proof
    assume "digit_char d = CHR ''+''"
    then have "(of_char (digit_char d) :: nat) = of_char CHR ''+''" by simp
    with v show False by simp
  qed
  ultimately show ?thesis using v assms
    by (simp add: is_digit_def digit_val_def is_space_def)
qed

lemma show_nat_digits: "\<forall>c \<in> set (show_nat n). is_digit c"
proof (induction n rule: show_nat.induct)
  case (1 n)
  show ?case
  proof (cases "n < 10")
    case True
    then show ?thesis by (subst show_nat.simps) (simp add: digit_char_props)
  next
    case False
    with 1 show ?thesis by (subst show_nat.simps) (simp add: digit_char_props)
  qed
qed

lemma show_nat_value: "foldl (\<lambda>acc c. 10 * acc + digit_val c) 0 (show_nat n) = int n"
proof (induction n rule: show_nat.induct)
  case (1 n)
  show ?case
  proof (cases "n < 10")
    case True
    then show ?thesis by (subst show_nat.simps) (simp add: digit_char_props)
  next
    case False
    with 1 have "foldl (\<lambda>acc c. 10 * acc + digit_val c) 0 (show_nat (n div 10)) = int (n div 10)"
      by simp
    with False show ?thesis
      by (subst show_nat.simps) (simp add: digit_char_props zdiv_int zmod_int)
  qed
qed

lemma show_nat_head: "\<exists>d ds. show_nat n = d # ds \<and> is_digit d \<and> \<not> is_space d \<and> d \<noteq> CHR ''-'' \<and> d \<noteq> CHR ''+''"
proof (induction n rule: show_nat.induct)
  case (1 n)
  show ?case
  proof (cases "n < 10")
    case True
    then show ?thesis by (subst show_nat.simps) (simp add: digit_char_props)
  next
    case False
    with 1 obtain d ds where "show_nat (n div 10) = d # ds \<and> is_digit d \<and> \<not> is_space d \<and> d \<noteq> CHR ''-'' \<and> d \<noteq> CHR ''+''"
      by blast
    with False show ?thesis by (subst show_nat.simps) simp
  qed
qed

lemma parseInt_show_int:
  assumes "0 \<le> h"
  shows "parseInt (show_int h @ ''p'') = Some h"
proof -
  let ?s = "show_nat (nat h)"
  obtain d ds where hd: "?s = d # ds" "is_digit d" "\<not> is_space d" "d \<noteq> CHR ''-''" "d \<noteq> CHR ''+''"
    using show_nat_head [of "nat h"] by blast
  have np: "\<not> is_digit CHR ''p''" by (simp add: is_digit_def)
  have tw: "takeWhile is_digit (?s @ ''p'') = ?s"
    using show_nat_digits [of "nat h"] np by (simp add: takeWhile_append2)
  have "parse_digits (?s @ ''p'') = Some h"
    using tw hd(1) show_nat_value [of "nat h"] assms
    by (simp add: parse_digits_def del: foldl_Cons)
  moreover have "parseInt (?s @ ''p'') = parse_digits (?s @ ''p'')"
    using hd by (simp add: parseInt_def)
  ultimately show ?thesis using assms by (simp add: show_int_def)
qed


subsection \<open>The choice list\<close>

lemma resolver_entry_shape:
  assumes "f \<in> set (getBestFormats raw)"
  shows "is_audio f \<or> (parseInt (resolution f) = Some (quality f))"
proof -
  from assms have "f \<in> set (sortedVideos raw) \<or> f \<in> set (audioTail raw)"
    by (simp add: getBestFormats_parts)
  then show ?thesis
  proof
    assume "f \<in> set (sortedVideos raw)"
    then obtain k where "(k, f) \<in> set (videoFormats raw)" by (auto simp: sortedVideos_set)
    from videoFormats_entries [OF this] obtain r where
      r: "144 \<le> k" "height r = k" "f = videoDto r" by auto
    then have "resolution f = show_int k @ ''p''" "quality f = k" by (simp_all add: videoDto_def)
    with r(1) parseInt_show_int [of k] show ?thesis by simp
  next
    assume "f \<in> set (audioTail raw)"
    then show ?thesis using audioTail_cases [of raw] by (auto simp: is_audio_def audioDto_def)
  qed
qed

lemma shown_video_not_audio: "shown_video f \<Longrightarrow> \<not> is_audio f"
  by (simp add: shown_video_def is_audio_def split: if_splits)

lemma visibleFormats_members:
  "f \<in> set (visibleFormats fs) \<Longrightarrow> f \<in> set fs \<and> (is_audio f \<or> shown_video f)"
  by (auto simp: visibleFormats_def Let_def find_Some_iff split: option.splits)

lemma visibleFormats_one_audio: "length (filter is_audio (visibleFormats fs)) \<le> 1"
proof -
  have "filter is_audio (sort_key (\<lambda>f. - sort_height f) (filter shown_video fs)) = []"
    by (auto simp: filter_empty_conv shown_video_not_audio)
  then show ?thesis by (simp add: visibleFormats_def Let_def split: option.splits)
qed

lemma choice_list_range:
  assumes "f \<in> set (choice_list en u)"
  shows "is_audio f \<or> (360 \<le> quality f \<and> quality f \<le> 1080)"
proof -
  let ?fs = "formats (videoInfo_of u (metadata en u))"
  from assms visibleFormats_members [of f ?fs]
  have mem: "f \<in> set ?fs" and vis: "is_audio f \<or> shown_video f" by (simp_all add: choice_list_def)
  from mem have "is_audio f \<or> parseInt (resolution f) = Some (quality f)"
    using resolver_entry_shape by (simp add: videoInfo_of_def)
  with vis show ?thesis
    by (auto simp: shown_video_def MIN_RESOLUTION_def MAX_RESOLUTION_def split: if_splits)
qed

lemma shown_keyboard_from:
  "map shown (map (\<lambda>(idx, f).
            \<lparr>starred = (idx = (0::nat) \<and> resolution f \<noteq> ''audio''), shown = f,
             callback_data = ''dl|'' @ sid @ ''|'' @ formatId f @ ''|'' @ resolution f\<rparr>)
         (enumerate n fs)) = fs"
  by (induction fs arbitrary: n) simp_all

lemma shown_keyboard: "map shown (keyboard_of sid fs) = fs"
  unfolding keyboard_of_def by (rule shown_keyboard_from)

subsection \<open>What a program may emit\<close>

lemma emitsI:
  assumes "\<And>w. \<exists>cs. trace (snd (m w)) = trace w @ cs \<and> (\<forall>c \<in> set cs. P c)"
  shows "emits P m"
  using assms by (simp add: emits_def)

lemma emits_ret: "emits P (ret x)"
  by (simp add: emits_def ret_def)

lemma emits_throw: "emits P (throw e)"
  by (simp add: emits_def throw_def)

lemma emits_perform: "P c \<Longrightarrow> emits P (perform en c)"
  by (auto simp: emits_def perform_def split: option.splits)

lemma emits_logger: "P (Logger l) \<Longrightarrow> emits P (logger l)"
  by (simp add: emits_def logger_def)

lemma emits_attempt_val:
  assumes "emits P m" and "\<And>w x. fst (m w) = Inr x \<Longrightarrow> Q x"
    and "\<And>x. Q x \<Longrightarrow> emits P (ok x)" and "\<And>e. emits P (failed e)"
  shows "emits P (attempt m ok failed)"
proof (rule emitsI)
  fix w
  obtain r w' where mw: "m w = (r, w')" by (cases "m w")
  from assms(1) mw obtain cs where cs: "trace w' = trace w @ cs" "\<forall>c \<in> set cs. P c"
    by (auto simp: emits_def dest: spec [of _ w])
  show "\<exists>cs. trace (snd (attempt m ok failed w)) = trace w @ cs \<and> (\<forall>c \<in> set cs. P c)"
  proof (cases r)
    case (Inl e)
    from assms(4) [of e] obtain ds where "trace (snd (failed e w')) = trace w' @ ds" "\<forall>c \<in> set ds. P c"
      by (auto simp: emits_def dest: spec [of _ w'])
    with cs Inl mw show ?thesis by (auto simp: attempt_def intro!: exI [of _ "cs @ ds"])
  next
    case (Inr x)
    with mw assms(2) [of w x] have "Q x" by simp
    from assms(3) [OF this] obtain ds where "trace (snd (ok x w')) = trace w' @ ds" "\<forall>c \<in> set ds. P c"
      by (auto simp: emits_def dest: spec [of _ w'])
    with cs Inr mw show ?thesis by (auto simp: attempt_def intro!: exI [of _ "cs @ ds"])
  qed
qed

lemma emits_attempt:
  assumes "emits P m" and "\<And>x. emits P (ok x)" and "\<And>e. emits P (failed e)"
  shows "emits P (attempt m ok failed)"
  by (rule emits_attempt_val [where Q = "\<lambda>x. True"]) (simp_all add: assms)

lemma await_attempt: "await m k = attempt m k throw"
  by (rule ext) (simp add: await_def attempt_def throw_def split: prod.splits sum.splits)

lemma try_catch_attempt: "try_catch m h = attempt m ret h"
  by (rule ext) (simp add: try_catch_def attempt_def ret_def split: prod.splits sum.splits)

lemma emits_await: "emits P m \<Longrightarrow> (\<And>x. emits P (k x)) \<Longrightarrow> emits P (await m k)"
  by (simp add: await_attempt emits_attempt emits_throw)

lemma emits_await_val:
  "emits P m \<Longrightarrow> (\<And>w x. fst (m w) = Inr x \<Longrightarrow> Q x) \<Longrightarrow> (\<And>x. Q x \<Longrightarrow> emits P (k x)) \<Longrightarrow>
   emits P (await m k)"
  unfolding await_attempt by (rule emits_attempt_val [where Q = Q]) (simp_all add: emits_throw)

lemma emits_andThen: "emits P m \<Longrightarrow> emits P k \<Longrightarrow> emits P (andThen m k)"
  by (simp add: andThen_def emits_await)

lemma emits_try_catch: "emits P m \<Longrightarrow> (\<And>e. emits P (h e)) \<Longrightarrow> emits P (try_catch m h)"
  by (simp add: try_catch_attempt emits_attempt emits_ret)

lemma emits_swallow: "emits P m \<Longrightarrow> emits P (swallow m)"
  by (simp add: swallow_def emits_try_catch emits_ret)

lemma emits_reading: "(\<And>x. emits P (m x)) \<Longrightarrow> emits P (\<lambda>w. m (f w) w)"
  by (simp add: emits_def)

lemma emits_silent: "(\<And>w. trace (snd (m w)) = trace w) \<Longrightarrow> emits P m"
  by (simp add: emits_def)

lemma emits_new_calls: "emits P m \<Longrightarrow> c \<in> set (new_calls m w) \<Longrightarrow> P c"
  by (auto simp: emits_def new_calls_def dest: spec [of _ w])

lemma emits_save: "(\<And>c. offered c = [] \<Longrightarrow> P c) \<Longrightarrow> emits P (save en i info)"
proof -
  assume P: "\<And>c. offered c = [] \<Longrightarrow> P c"
  have create: "\<And>row. emits P (prisma_create en i row)"
    unfolding prisma_create_def
    by (intro emits_andThen emits_perform P emits_silent) (auto split: if_splits)
  have "\<And>x. emits P (try_catch
        (andThen (prisma_create en i (row_of info x)) (logger (SessionSaved i)))
        (\<lambda>e. andThen (logger (SessionSaveError e)) (throw e)))"
    by (intro emits_try_catch emits_andThen create emits_logger emits_throw P) simp_all
  then have "emits P (\<lambda>w. try_catch
        (andThen (prisma_create en i (row_of info (seven_days_later en (now w)))) (logger (SessionSaved i)))
        (\<lambda>e. andThen (logger (SessionSaveError e)) (throw e)) w)"
    by (rule emits_reading [where f = "\<lambda>w. seven_days_later en (now w)"])
  then show ?thesis by (simp add: save_def [abs_def] Let_def)
qed

lemma emits_getVideoInfo: "(\<And>c. offered c = [] \<Longrightarrow> P c) \<Longrightarrow> emits P (getVideoInfo en u)"
  unfolding getVideoInfo_def
  by (intro emits_andThen emits_try_catch emits_perform emits_logger emits_throw emits_ret) simp_all

lemma emits_handleUrl: "emits (choice_ok en u) (handleUrl en c u)"
proof -
  let ?P = "choice_ok en u"
  have P: "\<And>c. offered c = [] \<Longrightarrow> ?P c" by (simp add: choice_ok_def)
  have send: "emits ?P (send_choices en (videoInfo_of u (metadata en u))
      (keyboard_of (randomHex en) (choice_list en u)))" if "choice_list en u \<noteq> []"
    unfolding send_choices_def Let_def using that
    by (auto intro!: emits_try_catch emits_andThen emits_swallow emits_perform emits_logger
        simp: choice_ok_def shown_keyboard)
  have rest: "emits ?P (if choice_list en u = [] then perform en (Reply TooLowOrNone)
      else send_choices en (videoInfo_of u (metadata en u))
             (keyboard_of (randomHex en) (choice_list en u)))"
    using send by (auto intro!: emits_perform P)
  have val: "\<And>w x. fst (getVideoInfo en u w) = Inr x \<Longrightarrow> x = videoInfo_of u (metadata en u)"
    by (auto simp: getVideoInfo_def io_defs split: option.splits)
  have body: "emits ?P (analyse en u)"
    unfolding analyse_def
  proof (rule emits_await_val [where Q = "\<lambda>x. x = videoInfo_of u (metadata en u)"])
    show "emits ?P (getVideoInfo en u)" by (rule emits_getVideoInfo) (rule P)
  next
    fix w x assume "fst (getVideoInfo en u w) = Inr x"
    then show "x = videoInfo_of u (metadata en u)" by (rule val)
  next
    fix x assume x: "x = videoInfo_of u (metadata en u)"
    have "emits ?P (cache_video (randomHex en) x)"
      by (rule emits_silent) (simp add: cache_video_def)
    moreover have "emits ?P (save en (randomHex en) x)" by (rule emits_save) (rule P)
    moreover have "emits ?P (if visibleFormats (formats x) = [] then perform en (Reply TooLowOrNone)
         else send_choices en x (keyboard_of (randomHex en) (visibleFormats (formats x))))"
      using rest x by (auto simp: choice_list_def split: if_splits)
    ultimately show "emits ?P (let sessionId = randomHex en in
       andThen (cache_video sessionId x)
      (andThen (save en sessionId x)
        (let visible = visibleFormats (formats x) in
         if visible = [] then perform en (Reply TooLowOrNone)
         else send_choices en x (keyboard_of sessionId visible))))"
      unfolding Let_def by (intro emits_andThen)
  qed
  show ?thesis
    unfolding handleUrl_def
    by (auto split: option.splits
        intro!: emits_attempt emits_try_catch emits_andThen emits_swallow emits_perform
          emits_logger body P)
qed

text \<open>
  Claim C10. For every URL and every run of \<^verbatim>\<open>handleUrl\<close>: each format of the choice list
  is the audio entry or a video candidate whose height lies between 360 and 1080
  inclusive, although the resolver keeps candidates down to 144; the list holds at most
  one audio entry; every keyboard sent during the run shows exactly this list, and none
  is sent when the list is empty. When the list is empty and the calls up to there go
  through, the user gets the no-usable-quality reply and the run ends with it.
\<close>

theorem choices_within_range:
  "(\<forall>f \<in> set (choice_list en u). is_audio f \<or> (360 \<le> quality f \<and> quality f \<le> 1080)) \<and>
   length (filter is_audio (choice_list en u)) \<le> 1 \<and>
   (\<forall>k \<in> set (new_calls (handleUrl en c u) w).
      offered k = [] \<or> (choice_list en u \<noteq> [] \<and> map shown (offered k) = choice_list en u)) \<and>
   (chat c = Some chatId \<and> faults en (Reply Analyzing) = None \<and> faults en (YtdlpDump u) = None \<and>
    faults en (PrismaCreate (randomHex en)) = None \<and> sessions w (randomHex en) = None \<and>
    faults en (Reply TooLowOrNone) = None \<and> choice_list en u = [] \<longrightarrow>
      fst (handleUrl en c u w) = Inr () \<and>
      new_calls (handleUrl en c u) w =
        [Reply Analyzing, Logger (AnalyzeStart u), YtdlpDump u, PrismaCreate (randomHex en),
         Logger (SessionSaved (randomHex en)), Reply TooLowOrNone])"
proof (intro conjI ballI impI)
  fix f assume "f \<in> set (choice_list en u)"
  then show "is_audio f \<or> (360 \<le> quality f \<and> quality f \<le> 1080)" by (rule choice_list_range)
next
  show "length (filter is_audio (choice_list en u)) \<le> 1"
    unfolding choice_list_def by (rule visibleFormats_one_audio)
next
  fix k assume "k \<in> set (new_calls (handleUrl en c u) w)"
  with emits_handleUrl [of en u c] have "choice_ok en u k" by (rule emits_new_calls)
  then show "offered k = [] \<or> (choice_list en u \<noteq> [] \<and> map shown (offered k) = choice_list en u)"
    by (simp add: choice_ok_def)
next
  assume a: "chat c = Some chatId \<and> faults en (Reply Analyzing) = None \<and> faults en (YtdlpDump u) = None \<and>
    faults en (PrismaCreate (randomHex en)) = None \<and> sessions w (randomHex en) = None \<and>
    faults en (Reply TooLowOrNone) = None \<and> choice_list en u = []"
  then show "fst (handleUrl en c u w) = Inr ()"
    by (simp add: handleUrl_def analyse_def getVideoInfo_def save_def prisma_create_def
        cache_video_def choice_list_def Let_def io_defs)
next
  assume a: "chat c = Some chatId \<and> faults en (Reply Analyzing) = None \<and> faults en (YtdlpDump u) = None \<and>
    faults en (PrismaCreate (randomHex en)) = None \<and> sessions w (randomHex en) = None \<and>
    faults en (Reply TooLowOrNone) = None \<and> choice_list en u = []"
  then show "new_calls (handleUrl en c u) w =
        [Reply Analyzing, Logger (AnalyzeStart u), YtdlpDump u, PrismaCreate (randomHex en),
         Logger (SessionSaved (randomHex en)), Reply TooLowOrNone]"
    by (simp add: new_calls_def handleUrl_def analyse_def getVideoInfo_def save_def
        prisma_create_def cache_video_def choice_list_def Let_def io_defs)
qed

theorem choices_within_range_witness:
  "choice_list quiet ''x'' = [videoDto avc_720_1000, videoDto vp9_360_500, audioDto audio_7] \<and>
   (is_audio (videoDto vp9_360_500) \<or>
      (360 \<le> quality (videoDto vp9_360_500) \<and> quality (videoDto vp9_360_500) \<le> 1080)) \<and>
   length (filter is_audio (choice_list quiet ''x'')) \<le> 1 \<and>
   new_calls (handleUrl quiet user_ctx ''x'') empty_world \<noteq> [] \<and>
   (offered (last (new_calls (handleUrl quiet user_ctx ''x'') empty_world)) = [] \<or>
      (choice_list quiet ''x'' \<noteq> [] \<and>
       map shown (offered (last (new_calls (handleUrl quiet user_ctx ''x'') empty_world))) =
         choice_list quiet ''x'')) \<and>
   (chat user_ctx = Some 42 \<and> faults quiet (Reply Analyzing) = None \<and>
    faults quiet (YtdlpDump ''low'') = None \<and>
    faults quiet (PrismaCreate (randomHex quiet)) = None \<and>
    sessions empty_world (randomHex quiet) = None \<and>
    faults quiet (Reply TooLowOrNone) = None \<and> choice_list quiet ''low'' = []) \<and>
   fst (handleUrl quiet user_ctx ''low'' empty_world) = Inr () \<and>
   new_calls (handleUrl quiet user_ctx ''low'') empty_world =
     [Reply Analyzing, Logger (AnalyzeStart ''low''), YtdlpDump ''low'',
      PrismaCreate (randomHex quiet), Logger (SessionSaved (randomHex quiet)),
      Reply TooLowOrNone]"
proof -
  have h1: "choice_list quiet ''x'' =
      [videoDto avc_720_1000, videoDto vp9_360_500, audioDto audio_7]"
    by code_simp
  have h2: "new_calls (handleUrl quiet user_ctx ''x'') empty_world \<noteq> []"
    by code_simp
  have h3: "chat user_ctx = Some 42 \<and> faults quiet (Reply Analyzing) = None \<and>
    faults quiet (YtdlpDump ''low'') = None \<and>
    faults quiet (PrismaCreate (randomHex quiet)) = None \<and>
    sessions empty_world (randomHex quiet) = None \<and>
    faults quiet (Reply TooLowOrNone) = None \<and> choice_list quiet ''low'' = []"
    by code_simp
  from h1 have m: "videoDto vp9_360_500 \<in> set (choice_list quiet ''x'')" by simp
  from h2 have l: "last (new_calls (handleUrl quiet user_ctx ''x'') empty_world)
      \<in> set (new_calls (handleUrl quiet user_ctx ''x'') empty_world)" by simp
  from choices_within_range [of quiet "''x''" user_ctx empty_world]
    choices_within_range [of quiet "''low''" user_ctx empty_world 42] h1 h2 h3 m l
  show ?thesis by blast
qed

section \<open>Properties of the selection handler\<close>

text \<open>
  Claim C1 fails on the code. A selection request for the 720p rendition, with the
  session in the in-process map and a cache entry stored under its fingerprint. The
  delivery from the cached reference succeeds and the hit is recorded; then
  \<^verbatim>\<open>userService.incrementDownloads\<close> throws. The throw lands in the \<^verbatim>\<open>catch\<close> meant for a
  stale reference: the handler logs that the reference is stale, answers "added to
  queue" and hands a download job to the queue, after the cached file has been
  delivered. With no call failing the same request ends after the bookkeeping and
  nothing is handed to the queue; with the delivery itself failing on a stale
  reference the request goes to the queue, as the claim says.
\<close>

theorem cache_hit_refetched_after_delivery:
  "chat user_ctx = Some 42 \<and> from_user user_ctx = Some 1001 \<and>
   videoDataCache hit_world ''s1'' = Some sample_info \<and>
   cache hit_world (video_id sample_info, ''136'', ''720p'') = Some cached_entry \<and>
   faults bookkeeping_fails sample_delivery = None \<and>
   faults bookkeeping_fails (IncrementDownloads 1001) = Some (ExternalError ''users table'') \<and>
   fst (handleQualitySelection bookkeeping_fails user_ctx ''s1'' ''136'' ''720p'' hit_world) =
     Inr () \<and>
   new_calls (handleQualitySelection bookkeeping_fails user_ctx ''s1'' ''136'' ''720p'') hit_world =
     [CacheGet ''vid1'' ''136'' ''720p'', Logger (CacheHit ''720p''),
      AnswerCallbackQuery FromCache, sample_delivery, RecordCacheHit ''entry1'' 1001,
      IncrementDownloads 1001, Logger FileIdStale, AnswerCallbackQuery AddedToQueue,
      QueueAdd sample_job] \<and>
   submitted (snd (handleQualitySelection bookkeeping_fails user_ctx ''s1'' ''136'' ''720p''
     hit_world)) = [sample_job] \<and>
   new_calls (handleQualitySelection quiet user_ctx ''s1'' ''136'' ''720p'') hit_world =
     [CacheGet ''vid1'' ''136'' ''720p'', Logger (CacheHit ''720p''),
      AnswerCallbackQuery FromCache, sample_delivery, RecordCacheHit ''entry1'' 1001,
      IncrementDownloads 1001, AdIncrementUserDownloads 1001, ShouldShowAd 1001] \<and>
   submitted (snd (handleQualitySelection quiet user_ctx ''s1'' ''136'' ''720p'' hit_world)) = [] \<and>
   faults stale_reference sample_delivery = Some (ExternalError ''wrong file identifier'') \<and>
   new_calls (handleQualitySelection stale_reference user_ctx ''s1'' ''136'' ''720p'') hit_world =
     [CacheGet ''vid1'' ''136'' ''720p'', Logger (CacheHit ''720p''),
      AnswerCallbackQuery FromCache, sample_delivery, Logger FileIdStale,
      AnswerCallbackQuery AddedToQueue, QueueAdd sample_job]"
  by (simp add: stale_reference_def handleQualitySelection_def lookup_session_def cache_get_def serve_cached_def
      deliver_def delivery_call_def delivery_caption_def should_show_ad_def
      fresh_download_def check_active_def enqueue_def downloadKey_def new_calls_def
      bookkeeping_fails_def failing_def quiet_def hit_world_def empty_world_def
      user_ctx_def sample_info_def sample_job_def cached_entry_def sample_delivery_def
      io_defs Let_def)

section \<open>Properties of the download job\<close>

lemmas job_defs = processDownload_def download_steps_def downloadVideo_def cacheToChannel_def
  save_to_cache_def fs_stat_def cache_set_def deliver_and_clean_def deliver_def
  delivery_call_def delivery_caption_def fs_unlink_def download_failed_def filepath_of_def
  sourceUrl_def write_of_def new_calls_def

lemmas sample_defs = sample_job_def sample_info_def user_ctx_def empty_world_def quiet_def
  failing_def upload_fails_def cache_down_def sample_path_def sample_write_def
  sample_delivery_def

lemma uniform_ret: "uniform (ret x)"
  unfolding uniform_def ret_def
  by (rule exI [of _ "Inr x"], rule exI [of _ "\<lambda>s. s"], rule exI [of _ "[]"]) simp

lemma uniform_perform: "uniform (perform en c)"
  unfolding uniform_def perform_def
  by (rule exI [of _ "case faults en c of None \<Rightarrow> Inr () | Some e \<Rightarrow> Inl e"],
      rule exI [of _ "\<lambda>s. s"], rule exI [of _ "[c]"]) (simp split: option.splits)

lemma uniform_logger: "uniform (logger l)"
  unfolding uniform_def logger_def
  by (rule exI [of _ "Inr ()"], rule exI [of _ "\<lambda>s. s"], rule exI [of _ "[Logger l]"]) simp

lemma uniform_unlink: "uniform (\<lambda>w. (Inr (), w\<lparr>files := files w - {p}\<rparr>))"
  unfolding uniform_def
  by (rule exI [of _ "Inr ()"], rule exI [of _ "\<lambda>s. s - {p}"], rule exI [of _ "[]"]) simp

lemma uniform_attempt:
  assumes "uniform m" and "\<And>x. uniform (ok x)" and "\<And>e. uniform (failed e)"
  shows "uniform (attempt m ok failed)"
proof -
  from assms(1) obtain r F T where m: "\<And>w. m w = (r, w\<lparr>files := F (files w), trace := trace w @ T\<rparr>)"
    unfolding uniform_def by blast
  show ?thesis
  proof (cases r)
    case (Inl e)
    from assms(3) [of e] obtain r' G U where
      h: "\<And>w. failed e w = (r', w\<lparr>files := G (files w), trace := trace w @ U\<rparr>)"
      unfolding uniform_def by blast
    show ?thesis unfolding uniform_def attempt_def
      by (rule exI [of _ r'], rule exI [of _ "\<lambda>s. G (F s)"], rule exI [of _ "T @ U"])
         (simp add: m h Inl)
  next
    case (Inr x)
    from assms(2) [of x] obtain r' G U where
      h: "\<And>w. ok x w = (r', w\<lparr>files := G (files w), trace := trace w @ U\<rparr>)"
      unfolding uniform_def by blast
    show ?thesis unfolding uniform_def attempt_def
      by (rule exI [of _ r'], rule exI [of _ "\<lambda>s. G (F s)"], rule exI [of _ "T @ U"])
         (simp add: m h Inr)
  qed
qed

lemma uniform_throw: "uniform (throw e)"
  unfolding uniform_def throw_def
  by (rule exI [of _ "Inl e"], rule exI [of _ "\<lambda>s. s"], rule exI [of _ "[]"]) simp

lemma uniform_andThen: "uniform m \<Longrightarrow> uniform k \<Longrightarrow> uniform (andThen m k)"
  by (simp add: andThen_def await_attempt uniform_attempt uniform_throw)

lemma uniform_try_catch: "uniform m \<Longrightarrow> (\<And>e. uniform (h e)) \<Longrightarrow> uniform (try_catch m h)"
  by (simp add: try_catch_attempt uniform_attempt uniform_ret)

lemma uniform_swallow: "uniform m \<Longrightarrow> uniform (swallow m)"
  by (simp add: swallow_def uniform_try_catch uniform_ret)

lemma uniform_deliver_and_clean:
  "uniform (try_catch (deliver_and_clean en j up) (download_failed en))"
  unfolding deliver_and_clean_def download_failed_def deliver_def fs_unlink_def
  by (intro uniform_try_catch uniform_andThen uniform_swallow uniform_perform uniform_logger
      uniform_unlink)

lemma uniform_insensitive:
  assumes "uniform m" and "files w' = files w"
  shows "fst (m w') = fst (m w) \<and> files (snd (m w')) = files (snd (m w)) \<and>
         new_calls m w' = new_calls m w"
proof -
  from assms(1) obtain r F T where m: "\<And>w. m w = (r, w\<lparr>files := F (files w), trace := trace w @ T\<rparr>)"
    unfolding uniform_def by blast
  show ?thesis using assms(2) by (simp add: m new_calls_def)
qed

lemma perform_cache_write_ok:
  "c \<noteq> FsStat (filepath_of en j) \<Longrightarrow>
   c \<noteq> CacheSet (write_of j (archive_ref en (filepath_of en j)) (stat_size en (filepath_of en j))) \<Longrightarrow>
   perform (cache_write_ok en j) c = perform en c"
  by (rule ext) (simp add: perform_def cache_write_ok_def)

lemma cache_write_ok_fields:
  "filepath_of (cache_write_ok en j) = filepath_of en"
  "delivery_caption (cache_write_ok en j) = delivery_caption en"
  "archive_ref (cache_write_ok en j) = archive_ref en"
  "stat_size (cache_write_ok en j) = stat_size en"
  "entry_id_of (cache_write_ok en j) = entry_id_of en"
  by (auto simp: cache_write_ok_def filepath_of_def delivery_caption_def fun_eq_iff)

lemma deliver_and_clean_env:
  "deliver_and_clean (cache_write_ok en j) j up = deliver_and_clean en j up"
  by (simp add: deliver_and_clean_def deliver_def fs_unlink_def delivery_call_def
      cache_write_ok_fields perform_cache_write_ok)

lemma download_failed_env: "download_failed (cache_write_ok en j) = download_failed en"
  by (rule ext) (simp add: download_failed_def perform_cache_write_ok)

lemma processDownload_until_cache:
  assumes "chat (job_ctx j) = Some chatId"
    and "faults en (Reply StartingDownload) = None"
    and "faults en (YtdlpDownload (sourceUrl j) (job_formatId j) (filepath_of en j)
           (job_resolution j = ''audio'')) = None"
    and "faults en (EditMessageText UploadingToTelegram []) = None"
    and "faults en (CacheToChannel (filepath_of en j) (job_resolution j = ''audio'')) = None"
  shows "processDownload en j w =
     try_catch (andThen (save_to_cache en j (archive_ref en (filepath_of en j)))
                        (deliver_and_clean en j (archive_ref en (filepath_of en j))))
       (download_failed en) (after_upload en j w)"
  using assms
  by (simp add: processDownload_def download_steps_def downloadVideo_def cacheToChannel_def
      after_upload_def Let_def io_defs)

lemma save_to_cache_failed:
  assumes "faults en (FsStat (filepath_of en j)) = Some e \<or>
     (faults en (FsStat (filepath_of en j)) = None \<and>
      faults en (CacheSet (write_of j up (stat_size en (filepath_of en j)))) = Some e)"
  shows "\<exists>cs. save_to_cache en j up w =
           (Inr (), w\<lparr>trace := trace w @ cs @ [Logger (CacheSaveError e)]\<rparr>) \<and>
         (\<forall>c \<in> set cs. \<not> user_facing c)"
proof -
  from assms show ?thesis
  proof
    assume "faults en (FsStat (filepath_of en j)) = Some e"
    then have "save_to_cache en j up w =
        (Inr (), w\<lparr>trace := trace w @ [FsStat (filepath_of en j)] @ [Logger (CacheSaveError e)]\<rparr>)"
      by (simp add: save_to_cache_def fs_stat_def io_defs)
    then show ?thesis by (intro exI [of _ "[FsStat (filepath_of en j)]"]) simp
  next
    assume "faults en (FsStat (filepath_of en j)) = None \<and>
      faults en (CacheSet (write_of j up (stat_size en (filepath_of en j)))) = Some e"
    then have "save_to_cache en j up w =
        (Inr (), w\<lparr>trace := trace w @
           [FsStat (filepath_of en j),
            CacheSet (write_of j up (stat_size en (filepath_of en j)))] @
           [Logger (CacheSaveError e)]\<rparr>)"
      by (simp add: save_to_cache_def fs_stat_def cache_set_def io_defs)
    then show ?thesis
      by (intro exI [of _ "[FsStat (filepath_of en j),
            CacheSet (write_of j up (stat_size en (filepath_of en j)))]"]) simp
  qed
qed

lemma save_to_cache_succeeded:
  "\<exists>w'. save_to_cache (cache_write_ok en j) j (archive_ref en (filepath_of en j)) w = (Inr (), w') \<and>
        files w' = files w \<and>
        trace w' = trace w @
          [FsStat (filepath_of en j),
           CacheSet (write_of j (archive_ref en (filepath_of en j)) (stat_size en (filepath_of en j))),
           Logger CacheSaved]"
proof -
  have ok: "faults (cache_write_ok en j) (FsStat (filepath_of en j)) = None"
    "faults (cache_write_ok en j)
       (CacheSet (write_of j (archive_ref en (filepath_of en j))
          (stat_size en (filepath_of en j)))) = None"
    by (simp_all add: cache_write_ok_def)
  show ?thesis
    by (simp add: save_to_cache_def fs_stat_def cache_set_def cache_write_ok_fields ok
        io_defs Let_def)
qed

lemma delivery_first:
  "\<exists>T. \<forall>w. trace (snd (try_catch (deliver_and_clean en j up) (download_failed en) w)) =
         trace w @ delivery_call (job_resolution j = ''audio'') (up_fileId up)
                     (delivery_caption en (job_video j) (job_resolution j)) # T"
proof -
  let ?D = "delivery_call (job_resolution j = ''audio'') (up_fileId up)
                     (delivery_caption en (job_video j) (job_resolution j))"
  let ?rest = "andThen (swallow (perform en DeleteMessage))
    (andThen (swallow (fs_unlink en (filepath_of en j)))
    (andThen (perform en (IncrementDownloads (job_userId j)))
             (perform en (AdIncrementUserDownloads (job_userId j)))))"
  show ?thesis
  proof (cases "faults en ?D")
    case None
    have "uniform (try_catch ?rest (download_failed en))"
      unfolding download_failed_def fs_unlink_def
      by (intro uniform_try_catch uniform_andThen uniform_swallow uniform_perform
          uniform_logger uniform_unlink)
    then obtain r F T where
      u: "\<And>w. try_catch ?rest (download_failed en) w =
             (r, w\<lparr>files := F (files w), trace := trace w @ T\<rparr>)"
      unfolding uniform_def by blast
    have "\<And>w. try_catch (deliver_and_clean en j up) (download_failed en) w =
        try_catch ?rest (download_failed en) (w\<lparr>trace := trace w @ [?D]\<rparr>)"
      using None by (simp add: deliver_and_clean_def deliver_def io_defs)
    then show ?thesis by (intro exI [of _ T]) (simp add: u)
  next
    case (Some e)
    have "uniform (download_failed en e)"
      unfolding download_failed_def
      by (intro uniform_andThen uniform_swallow uniform_perform uniform_logger)
    then obtain r F T where
      u: "\<And>w. download_failed en e w = (r, w\<lparr>files := F (files w), trace := trace w @ T\<rparr>)"
      unfolding uniform_def by blast
    have "\<And>w. try_catch (deliver_and_clean en j up) (download_failed en) w =
        download_failed en e (w\<lparr>trace := trace w @ [?D]\<rparr>)"
      using Some by (simp add: deliver_and_clean_def deliver_def io_defs)
    then show ?thesis by (intro exI [of _ T]) (simp add: u)
  qed
qed


lemma after_upload_env: "after_upload (cache_write_ok en j) j w = after_upload en j w"
  by (simp add: after_upload_def cache_write_ok_fields)

text \<open>
  Claim C8. Take a job whose download and upload succeed and whose cache write fails, at
  \<^verbatim>\<open>fs.stat\<close> or at \<^verbatim>\<open>cacheService.set\<close>. The error is logged; the delivery call with the
  archived reference is still made; and the job's result, the calls the user can see
  and the files left behind are exactly those of the same job with a successful write.
\<close>

theorem cache_write_failure_not_fatal:
  assumes "chat (job_ctx j) = Some chatId"
    and "faults en (Reply StartingDownload) = None"
    and "faults en (YtdlpDownload (sourceUrl j) (job_formatId j) (filepath_of en j)
           (job_resolution j = ''audio'')) = None"
    and "faults en (EditMessageText UploadingToTelegram []) = None"
    and "faults en (CacheToChannel (filepath_of en j) (job_resolution j = ''audio'')) = None"
    and "faults en (FsStat (filepath_of en j)) = Some e \<or>
     (faults en (FsStat (filepath_of en j)) = None \<and>
      faults en (CacheSet (write_of j (archive_ref en (filepath_of en j))
                   (stat_size en (filepath_of en j)))) = Some e)"
  shows "Logger (CacheSaveError e) \<in> set (new_calls (processDownload en j) w) \<and>
    delivery_call (job_resolution j = ''audio'') (up_fileId (archive_ref en (filepath_of en j)))
      (delivery_caption en (job_video j) (job_resolution j))
      \<in> set (new_calls (processDownload en j) w) \<and>
    fst (processDownload en j w) = fst (processDownload (cache_write_ok en j) j w) \<and>
    filter user_facing (new_calls (processDownload en j) w) =
      filter user_facing (new_calls (processDownload (cache_write_ok en j) j) w) \<and>
    files (snd (processDownload en j w)) =
      files (snd (processDownload (cache_write_ok en j) j w))"
proof -
  let ?up = "archive_ref en (filepath_of en j)"
  let ?K = "try_catch (deliver_and_clean en j ?up) (download_failed en)"
  let ?D = "delivery_call (job_resolution j = ''audio'') (up_fileId ?up)
      (delivery_caption en (job_video j) (job_resolution j))"
  let ?w5 = "after_upload en j w"
  have t5: "\<exists>P. trace ?w5 = trace w @ P \<and>
      filter user_facing P = [Reply StartingDownload, EditMessageText UploadingToTelegram []]"
    by (simp add: after_upload_def)
  then obtain P where P: "trace ?w5 = trace w @ P"
    "filter user_facing P = [Reply StartingDownload, EditMessageText UploadingToTelegram []]"
    by blast
  \<comment> \<open>the run in which the write fails\<close>
  from save_to_cache_failed [OF assms(6), of ?w5] obtain cs where
    cs: "save_to_cache en j ?up ?w5 =
           (Inr (), ?w5\<lparr>trace := trace ?w5 @ cs @ [Logger (CacheSaveError e)]\<rparr>)"
      "\<forall>c \<in> set cs. \<not> user_facing c"
    by blast
  let ?wf = "?w5\<lparr>trace := trace ?w5 @ cs @ [Logger (CacheSaveError e)]\<rparr>"
  have failed_run: "processDownload en j w = ?K ?wf"
    using processDownload_until_cache [OF assms(1-5), of w] cs(1)
    by (simp add: io_defs)
  \<comment> \<open>the run in which it succeeds\<close>
  from save_to_cache_succeeded [of en j ?w5] obtain wo where
    wo: "save_to_cache (cache_write_ok en j) j ?up ?w5 = (Inr (), wo)" "files wo = files ?w5"
      "trace wo = trace ?w5 @
          [FsStat (filepath_of en j),
           CacheSet (write_of j ?up (stat_size en (filepath_of en j))), Logger CacheSaved]"
    by blast
  have pre: "faults (cache_write_ok en j) (Reply StartingDownload) = None"
    "faults (cache_write_ok en j) (YtdlpDownload (sourceUrl j) (job_formatId j)
        (filepath_of (cache_write_ok en j) j) (job_resolution j = ''audio'')) = None"
    "faults (cache_write_ok en j) (EditMessageText UploadingToTelegram []) = None"
    "faults (cache_write_ok en j) (CacheToChannel (filepath_of (cache_write_ok en j) j)
        (job_resolution j = ''audio'')) = None"
    using assms(2-5) by (simp_all add: cache_write_ok_fields) (simp_all add: cache_write_ok_def)
  have ok_run: "processDownload (cache_write_ok en j) j w = ?K wo"
    using processDownload_until_cache [OF assms(1) pre, of w] wo(1)
    by (simp add: cache_write_ok_fields after_upload_env deliver_and_clean_env
        download_failed_env io_defs)
  \<comment> \<open>what follows the write is the same in both\<close>
  from uniform_deliver_and_clean [of en j ?up] obtain r F T where
    K: "\<And>w. ?K w = (r, w\<lparr>files := F (files w), trace := trace w @ T\<rparr>)"
    unfolding uniform_def by blast
  from delivery_first [of en j ?up] obtain T' where
    "\<And>w. trace (snd (?K w)) = trace w @ ?D # T'" by blast
  with K have T: "T = ?D # T'" by simp
  have calls_failed: "new_calls (processDownload en j) w =
      P @ cs @ [Logger (CacheSaveError e)] @ T"
    by (simp add: new_calls_def failed_run K P(1))
  have calls_ok: "new_calls (processDownload (cache_write_ok en j) j) w =
      P @ [FsStat (filepath_of en j),
           CacheSet (write_of j ?up (stat_size en (filepath_of en j))), Logger CacheSaved] @ T"
    by (simp add: new_calls_def ok_run K wo(3) P(1))
  have quiet_cs: "filter user_facing cs = []"
    using cs(2) by (simp add: filter_empty_conv)
  show ?thesis
    using calls_failed calls_ok T quiet_cs
    by (simp add: failed_run ok_run K wo(2))
qed

theorem cache_write_failure_not_fatal_witness:
  "(chat (job_ctx sample_job) = Some 42 \<and>
    faults cache_down (Reply StartingDownload) = None \<and>
    faults cache_down (YtdlpDownload (sourceUrl sample_job) (job_formatId sample_job)
       (filepath_of cache_down sample_job) (job_resolution sample_job = ''audio'')) = None \<and>
    faults cache_down (EditMessageText UploadingToTelegram []) = None \<and>
    faults cache_down (CacheToChannel (filepath_of cache_down sample_job)
       (job_resolution sample_job = ''audio'')) = None \<and>
    faults cache_down (FsStat (filepath_of cache_down sample_job)) = None \<and>
    faults cache_down (CacheSet (write_of sample_job
       (archive_ref cache_down (filepath_of cache_down sample_job))
       (stat_size cache_down (filepath_of cache_down sample_job)))) =
      Some (PrismaError ''P1001'')) \<and>
   Logger (CacheSaveError (PrismaError ''P1001''))
     \<in> set (new_calls (processDownload cache_down sample_job) empty_world) \<and>
   delivery_call (job_resolution sample_job = ''audio'')
      (up_fileId (archive_ref cache_down (filepath_of cache_down sample_job)))
      (delivery_caption cache_down (job_video sample_job) (job_resolution sample_job)) =
     sample_delivery \<and>
   sample_delivery \<in> set (new_calls (processDownload cache_down sample_job) empty_world) \<and>
   fst (processDownload cache_down sample_job empty_world) = Inr () \<and>
   filter user_facing (new_calls (processDownload cache_down sample_job) empty_world) =
     filter user_facing
       (new_calls (processDownload (cache_write_ok cache_down sample_job) sample_job)
          empty_world) \<and>
   filter user_facing (new_calls (processDownload cache_down sample_job) empty_world) =
     [Reply StartingDownload, EditMessageText UploadingToTelegram [], sample_delivery,
      DeleteMessage]"
proof -
  have h: "chat (job_ctx sample_job) = Some 42"
    "faults cache_down (Reply StartingDownload) = None"
    "faults cache_down (YtdlpDownload (sourceUrl sample_job) (job_formatId sample_job)
       (filepath_of cache_down sample_job) (job_resolution sample_job = ''audio'')) = None"
    "faults cache_down (EditMessageText UploadingToTelegram []) = None"
    "faults cache_down (CacheToChannel (filepath_of cache_down sample_job)
       (job_resolution sample_job = ''audio'')) = None"
    by (simp_all add: job_defs sample_defs)
  have f: "faults cache_down (FsStat (filepath_of cache_down sample_job)) = None \<and>
    faults cache_down (CacheSet (write_of sample_job
       (archive_ref cache_down (filepath_of cache_down sample_job))
       (stat_size cache_down (filepath_of cache_down sample_job)))) =
      Some (PrismaError ''P1001'')"
    by code_simp
  have d: "delivery_call (job_resolution sample_job = ''audio'')
      (up_fileId (archive_ref cache_down (filepath_of cache_down sample_job)))
      (delivery_caption cache_down (job_video sample_job) (job_resolution sample_job)) =
     sample_delivery"
    by code_simp
  have r: "fst (processDownload cache_down sample_job empty_world) = Inr ()"
    by (simp add: job_defs sample_defs io_defs Let_def)
  have v: "filter user_facing (new_calls (processDownload cache_down sample_job) empty_world) =
     [Reply StartingDownload, EditMessageText UploadingToTelegram [], sample_delivery,
      DeleteMessage]"
    by (simp add: job_defs sample_defs io_defs Let_def)
  from f have f': "faults cache_down (FsStat (filepath_of cache_down sample_job)) =
       Some (PrismaError ''P1001'') \<or>
     (faults cache_down (FsStat (filepath_of cache_down sample_job)) = None \<and>
      faults cache_down (CacheSet (write_of sample_job
         (archive_ref cache_down (filepath_of cache_down sample_job))
         (stat_size cache_down (filepath_of cache_down sample_job)))) =
        Some (PrismaError ''P1001''))"
    by simp
  from cache_write_failure_not_fatal [OF h f', of empty_world] h f d r v
  show ?thesis by simp
qed

text \<open>
  Claim C7 fails on the code. A job whose download succeeds and whose upload to the
  archive channel is rejected ends in the \<^verbatim>\<open>catch\<close> block, which edits the progress
  message and nothing else: the file is still there when the job has finished, and
  \<^verbatim>\<open>fs.unlink\<close> was never called. The same job without the fault removes it.
\<close>

theorem temp_file_left_after_failed_upload:
  "chat (job_ctx sample_job) = Some 42 \<and>
   filepath_of upload_fails sample_job = sample_path \<and>
   files empty_world = {} \<and>
   fst (processDownload upload_fails sample_job empty_world) = Inr () \<and>
   new_calls (processDownload upload_fails sample_job) empty_world =
     [Reply StartingDownload,
      YtdlpDownload ''https://example.org/watch?v=vid1'' ''136'' sample_path False,
      EditMessageText UploadingToTelegram [], CacheToChannel sample_path False,
      Logger (DownloadError (ExternalError ''upload'')),
      EditMessageText (ErrorText (ExternalError ''upload'')) []] \<and>
   files (snd (processDownload upload_fails sample_job empty_world)) = {sample_path} \<and>
   files (snd (processDownload quiet sample_job empty_world)) = {}"
  by (simp add: job_defs sample_defs io_defs Let_def)

section \<open>Properties of concurrent selection requests\<close>

text \<open>A flow that is not interrupted between check and registration is the sequential code.\<close>

lemma uninterrupted_flow:
  "snd (run_moves en ([\<lparr>flow_job = j, flow_pc = AtCheck\<rparr>], w) [Check 0, Resume 0]) =
   snd (fresh_download en j w)"
  by (auto simp: run_moves_def fresh_download_def flow_key_def check_active_def enqueue_def
      io_defs Let_def split: option.splits)

text \<open>
  Claim C2 fails on the code. Two flows with the same download key, nothing in flight:
  both run the check before either registers (each is suspended in the \<^verbatim>\<open>await\<close> of
  its answer), then both hand their job to the queue. Two jobs of the key are in flight
  and neither user was told to wait. Run one after the other, the second is refused.
\<close>

theorem duplicate_download_under_interleaving:
  "flow_key (two_flows ! 0) = ''vid1|136'' \<and> flow_key (two_flows ! 1) = ''vid1|136'' \<and>
   activeDownloads empty_world = {} \<and> submitted empty_world = [] \<and>
   in_flight ''vid1|136''
     (snd (run_moves quiet (two_flows, empty_world) [Check 0, Check 1, Resume 0, Resume 1])) =
     [sample_job, second_job] \<and>
   filter (\<lambda>c. c = AnswerCallbackQuery AlreadyDownloading)
     (trace (snd (run_moves quiet (two_flows, empty_world)
        [Check 0, Check 1, Resume 0, Resume 1]))) = [] \<and>
   in_flight ''vid1|136''
     (snd (run_moves quiet (two_flows, empty_world) [Check 0, Resume 0, Check 1, Resume 1])) =
     [sample_job]"
  by code_simp

end
